theory Spec2Isabelle
  imports
    Complex_Main
    "HOL-Library.Product_Lexorder"
    "HOL-Library.Option_ord"
    "HOL-Library.Char_ord"
    "HOL-Library.List_Lexorder"
begin

section \<open>Values of the schema\<close>

text \<open>
  A \<open>Date\<close> / SQL \<open>timestamp\<close> is kept as its civil fields, the month counted from 0
  as \<open>getMonth()\<close> does, the fraction of the second in microseconds: a timestamp of
  the store has microseconds, a \<open>Date\<close> of the program milliseconds. Timestamps
  compare field by field, most significant first (\<open>gte\<close>, \<open>lte\<close>, \<open>ORDER BY\<close>).
  The program and the store read their own clocks, in one time zone. A \<open>Date\<close> object
  may be the invalid date.
\<close>

record timestamp =
  ts_year :: int
  ts_month :: nat
  ts_day :: nat
  ts_hours :: nat
  ts_minutes :: nat
  ts_seconds :: nat
  ts_us :: nat

definition ts_key :: "timestamp \<Rightarrow> int \<times> nat \<times> nat \<times> nat \<times> nat \<times> nat \<times> nat" where
  "ts_key t = (ts_year t, ts_month t, ts_day t, ts_hours t, ts_minutes t, ts_seconds t, ts_us t)"

definition gte :: "timestamp \<Rightarrow> timestamp \<Rightarrow> bool" where
  "gte a b = (ts_key b \<le> ts_key a)"

definition lte :: "timestamp \<Rightarrow> timestamp \<Rightarrow> bool" where
  "lte a b = (ts_key a \<le> ts_key b)"

datatype js_date = Date timestamp | InvalidDate

text \<open>
  A \<open>decimal(p, 2)\<close> column holds a number of hundredths: \<open>decimal\<close> is that number,
  so 1179500 stands for 11795.00. The program hands an amount over as a decimal text;
  \<open>amount\<close> is the rational number the text denotes, with as many decimals as the
  text has. A text that denotes no number is outside the model.
\<close>

type_synonym decimal = int

type_synonym amount = rat

text \<open>
  The rows of each table, with the columns that the properties below are about. The
  remaining columns (descriptions, weights, prices, customer details) travel with a
  row unchanged; they and the store's checks on them are not modelled. A nullable
  column is an \<open>option\<close>. The key of a bill is a \<open>uuid\<close>, kept in its text form; the
  other keys are texts.
\<close>

record user =
  u_id :: string
  u_email :: string
  u_password :: string
  u_name :: string
  u_phone :: "string option"
  u_role :: string
  u_stripeCustomerId :: "string option"
  u_stripeSubscriptionId :: "string option"
  u_otpCode :: "string option"
  u_otpExpiry :: "timestamp option"
  u_otpVerified :: "bool option"

record product =
  p_id :: string
  p_name :: string
  p_category :: string
  p_stock :: int
  p_isActive :: bool
  p_createdAt :: "timestamp option"

record category =
  c_id :: string
  c_name :: string
  c_slug :: string
  c_parentId :: "string option"
  c_displayOrder :: "int option"
  c_isActive :: bool
  c_updatedAt :: "timestamp option"

record bill_item =
  bi_productId :: string
  bi_productName :: string
  bi_quantity :: int
  bi_priceInr :: string
  bi_total :: string

record bill =
  b_id :: string
  b_billNumber :: string
  b_customerName :: string
  b_subtotal :: decimal
  b_makingCharges :: decimal
  b_gst :: decimal
  b_vat :: decimal
  b_discount :: decimal
  b_total :: decimal
  b_paidAmount :: decimal
  b_items :: "bill_item list"
  b_createdAt :: "timestamp option"
  b_updatedAt :: "timestamp option"

record estimate =
  e_id :: string
  e_quotationNo :: string
  e_customerName :: string
  e_totalAmount :: decimal
  e_validUntil :: timestamp
  e_status :: string
  e_createdAt :: "timestamp option"

record home_section =
  hs_id :: string
  hs_title :: string
  hs_isActive :: bool
  hs_displayOrder :: "int option"
  hs_updatedAt :: "timestamp option"

record home_section_item =
  hi_id :: string
  hi_sectionId :: string
  hi_productId :: string
  hi_displayName :: "string option"
  hi_position :: int

text \<open>The database: one list of rows per table, in insertion order.\<close>

record db =
  users :: "user list"
  products :: "product list"
  categories :: "category list"
  bills :: "bill list"
  estimates :: "estimate list"
  homeSections :: "home_section list"
  homeSectionItems :: "home_section_item list"

section \<open>Query helpers\<close>

text \<open>
  \<open>const [row] = await db.select()...\<close> followed by \<open>row || undefined\<close>: the first
  row of the result, or absent.
\<close>

definition first_row :: "'a list \<Rightarrow> 'a option" where
  "first_row rows = (case rows of [] \<Rightarrow> None | r # _ \<Rightarrow> Some r)"

text \<open>
  \<open>ORDER BY\<close>: ascending order puts NULL last, descending order puts it first. The
  order among rows with equal keys is the store's choice; the model keeps a stable one.
\<close>

definition nulls_last :: "'a option \<Rightarrow> bool \<times> 'a option" where
  "nulls_last v = (v = None, v)"

definition orderBy :: "('a \<Rightarrow> 'k::linorder) \<Rightarrow> 'a list \<Rightarrow> 'a list" where
  "orderBy k rows = sort_key k rows"

definition orderBy_desc :: "('a \<Rightarrow> 'k::linorder) \<Rightarrow> 'a list \<Rightarrow> 'a list" where
  "orderBy_desc k rows = rev (sort_key k rows)"

text \<open>
  \<open>db.update(t).set(...).where(eq(t.id, id)).returning()\<close>: every row whose key
  matches is rewritten in place; the rewritten rows are returned.
\<close>

definition update_where :: "('a \<Rightarrow> bool) \<Rightarrow> ('a \<Rightarrow> 'a) \<Rightarrow> 'a list \<Rightarrow> 'a list" where
  "update_where P f rows = map (\<lambda>r. if P r then f r else r) rows"

definition returning :: "('a \<Rightarrow> bool) \<Rightarrow> ('a \<Rightarrow> 'a) \<Rightarrow> 'a list \<Rightarrow> 'a list" where
  "returning P f rows = map f (filter P rows)"

section \<open>Product operations\<close>

definition getAllProducts :: "db \<Rightarrow> product list" where
  "getAllProducts s =
     orderBy_desc (\<lambda>p. nulls_last (map_option ts_key (p_createdAt p)))
       (filter (\<lambda>p. p_isActive p = True) (products s))"

definition getProduct :: "db \<Rightarrow> string \<Rightarrow> product option" where
  "getProduct s i =
     first_row (filter (\<lambda>p. p_id p = i \<and> p_isActive p = True) (products s))"

definition getProductsByCategory :: "db \<Rightarrow> string \<Rightarrow> product list" where
  "getProductsByCategory s cat =
     orderBy_desc (\<lambda>p. nulls_last (map_option ts_key (p_createdAt p)))
       (filter (\<lambda>p. p_category p = cat \<and> p_isActive p = True) (products s))"

text \<open>
  \<open>deleteProduct\<close> updates the flag and reports whether the update returned a row.
\<close>

definition deleteProduct :: "db \<Rightarrow> string \<Rightarrow> bool \<times> db" where
  "deleteProduct s i =
     (let deleted = returning (\<lambda>p. p_id p = i) (\<lambda>p. p\<lparr>p_isActive := False\<rparr>) (products s);
          s' = s\<lparr>products := update_where (\<lambda>p. p_id p = i) (\<lambda>p. p\<lparr>p_isActive := False\<rparr>) (products s)\<rparr>
      in (first_row deleted \<noteq> None, s'))"

section \<open>User operations\<close>

text \<open>
  An asynchronous repository operation either rejects with an error or resolves to a
  value. \<open>Error\<close> is raised by the repository itself or by the query builder,
  \<open>RangeError\<close> and \<open>TypeError\<close> by the conversion of a date to the text the store
  receives, \<open>DatabaseError\<close> by the store when it refuses a statement. An operation
  that raises leaves the store as it was. The loss of the connection is not modelled.
\<close>

datatype error = Error string | RangeError string | TypeError string | DatabaseError string

datatype 'a outcome = Raised error | Returned 'a


text \<open>
  A \<open>Date\<close> reaches the store through \<open>toISOString()\<close>, which raises on the
  invalid date.
\<close>

definition toISOString :: "js_date \<Rightarrow> timestamp outcome" where
  "toISOString d =
     (case d of Date t \<Rightarrow> Returned t | InvalidDate \<Rightarrow> Raised (RangeError ''Invalid time value''))"



text \<open>
  A \<open>numeric(p, 2)\<close> column rounds what it receives to hundredths, a half away from
  zero, and refuses a value that then has more than \<open>p\<close> digits.
\<close>

definition round_cents :: "rat \<Rightarrow> decimal" where
  "round_cents x = (if 0 \<le> x then \<lfloor>x * 100 + 1 / 2\<rfloor> else - \<lfloor>- x * 100 + 1 / 2\<rfloor>)"

definition fits_numeric :: "nat \<Rightarrow> rat \<Rightarrow> bool" where
  "fits_numeric p x = (\<bar>round_cents x\<bar> < 10 ^ p)"

definition fits_opt :: "nat \<Rightarrow> rat option \<Rightarrow> bool" where
  "fits_opt p v = (case v of None \<Rightarrow> True | Some x \<Rightarrow> fits_numeric p x)"

text \<open>
  The amounts a \<open>numeric(12, 2)\<close> column takes, as an interval: below
  9999999999.995 in absolute value.
\<close>

abbreviation in_range_12_2 :: "rat \<Rightarrow> bool" where
  "in_range_12_2 x \<equiv> \<bar>x\<bar> < 10 ^ 10 - 1 / 200"

abbreviation present_in_range_12_2 :: "rat option \<Rightarrow> bool" where
  "present_in_range_12_2 v \<equiv> (case v of None \<Rightarrow> True | Some x \<Rightarrow> in_range_12_2 x)"


text \<open>The value of an optional amount in a sum, 0 when it is absent.\<close>

abbreviation or_0 :: "rat option \<Rightarrow> rat" where
  "or_0 v \<equiv> (case v of None \<Rightarrow> 0 | Some x \<Rightarrow> x)"

definition getUserByEmail :: "db \<Rightarrow> string \<Rightarrow> user option" where
  "getUserByEmail s email = first_row (filter (\<lambda>u. u_email u = email) (users s))"

text \<open>
  \<open>bcrypt.compare\<close> and \<open>bcrypt.hash\<close> belong to a library; they are parameters
  \<open>compare\<close> and \<open>hash\<close> of the operations that call them.
\<close>

definition authenticateUser ::
  "(string \<Rightarrow> string \<Rightarrow> bool) \<Rightarrow> db \<Rightarrow> string \<Rightarrow> string \<Rightarrow> user option outcome" where
  "authenticateUser compare s email password =
     (case getUserByEmail s email of
        None \<Rightarrow> Returned None
      | Some u \<Rightarrow>
          (let isValid = compare password (u_password u)
           in Returned (if isValid then Some u else None)))"








section \<open>Partial updates\<close>

text \<open>
  A \<open>Partial<...>\<close> argument carries a value for some columns; \<open>.set(...)\<close> writes the
  columns that are present and leaves the others. For a nullable column a present
  value may be NULL. The query builder raises \<open>Error('No values to set')\<close> when no
  property of the object handed to \<open>.set(...)\<close> has a value.
\<close>

definition set_col :: "'v option \<Rightarrow> 'v \<Rightarrow> 'v" where
  "set_col new old = (case new of None \<Rightarrow> old | Some v \<Rightarrow> v)"





section \<open>Category operations\<close>

text \<open>JavaScript truthiness of a nullable string: \<open>null\<close> and \<open>""\<close> are falsy.\<close>

definition truthy :: "string option \<Rightarrow> bool" where
  "truthy v = (case v of None \<Rightarrow> False | Some x \<Rightarrow> x \<noteq> [])"

definition getAllCategories :: "db \<Rightarrow> category list" where
  "getAllCategories s =
     orderBy (\<lambda>c. (nulls_last (c_displayOrder c), c_name c)) (categories s)"

record category_with_children = category +
  children :: "category list"

definition getCategoriesHierarchy :: "db \<Rightarrow> category_with_children list" where
  "getCategoriesHierarchy s =
     (let allCategories = getAllCategories s;
          mainCategories = filter (\<lambda>cat. \<not> truthy (c_parentId cat)) allCategories
      in map (\<lambda>mainCat.
                category.extend mainCat
                  (category_with_children.fields
                     (filter (\<lambda>cat. c_parentId cat = Some (c_id mainCat)) allCategories)))
           mainCategories)"

definition getCategory :: "db \<Rightarrow> string \<Rightarrow> category option" where
  "getCategory s i = first_row (filter (\<lambda>c. c_id c = i) (categories s))"

definition getSubCategories :: "db \<Rightarrow> string \<Rightarrow> category list" where
  "getSubCategories s parentId =
     orderBy (\<lambda>c. (nulls_last (c_displayOrder c), c_name c))
       (filter (\<lambda>c. c_parentId c = Some parentId) (categories s))"

text \<open>
  \<open>deleteCategory\<close>: two guards, each an early \<open>return false\<close>, then the delete, whose
  \<open>rowCount\<close> is the number of rows removed.
\<close>

definition deleteCategory :: "db \<Rightarrow> string \<Rightarrow> bool \<times> db" where
  "deleteCategory s i =
     (let children = getSubCategories s i
      in if length children > 0 then (False, s)
         else
           (let slug = map_option c_slug (getCategory s i);
                productsUsingCategory =
                  filter (\<lambda>p. p_category p = (if truthy slug then the slug else [])) (products s)
            in if length productsUsingCategory > 0 then (False, s)
               else
                 (let rowCount = length (filter (\<lambda>c. c_id c = i) (categories s));
                      s' = s\<lparr>categories := filter (\<lambda>c. \<not> c_id c = i) (categories s)\<rparr>
                  in (rowCount > 0, s'))))"






text \<open>
  How often a stored category is placed in a hierarchy: as a root entry, and in the
  children lists of the root entries.
\<close>

definition root_count :: "category \<Rightarrow> category_with_children list \<Rightarrow> nat" where
  "root_count c h = length (filter (\<lambda>r. category.truncate r = c) h)"

definition child_count :: "category \<Rightarrow> category_with_children list \<Rightarrow> nat" where
  "child_count c h = sum_list (map (\<lambda>r. count_list (children r) c) h)"

definition placements :: "category \<Rightarrow> category_with_children list \<Rightarrow> nat" where
  "placements c h = root_count c h + child_count c h"

section \<open>Bill operations\<close>

text \<open>
  JavaScript numbers are doubles. \<open>Number(str)\<close> is the double nearest to the value of
  \<open>str\<close>, \<open>+\<close> and \<open>-\<close> give the double nearest to the exact result, and a number
  reaches the store as its shortest decimal text. The two roundings are parameters:
  \<open>fl\<close> takes a rational to the nearest double, \<open>txt\<close> takes a double to the value of
  its text. What is known of them is \<open>double_rounding\<close>: up to \<open>10 ^ 12\<close> the error is
  at most \<open>(\<bar>x\<bar> + 1) / 10 ^ 15\<close> (for binary64 it is below \<open>\<bar>x\<bar> / 2 ^ 53\<close>, and
  below \<open>1 / 2 ^ 1074\<close> near zero).
\<close>

definition double_rounding :: "(rat \<Rightarrow> rat) \<Rightarrow> bool" where
  "double_rounding f = (\<forall>x. \<bar>x\<bar> \<le> 10 ^ 12 \<longrightarrow> \<bar>f x - x\<bar> \<le> (\<bar>x\<bar> + 1) / 10 ^ 15)"

definition Number :: "(rat \<Rightarrow> rat) \<Rightarrow> amount \<Rightarrow> rat" where
  "Number fl x = fl x"

text \<open>\<open>Number(x || 0)\<close> of an optional amount.\<close>

definition Number_or_0 :: "(rat \<Rightarrow> rat) \<Rightarrow> amount option \<Rightarrow> rat" where
  "Number_or_0 fl x = (case x of None \<Rightarrow> 0 | Some v \<Rightarrow> fl v)"

definition js_plus :: "(rat \<Rightarrow> rat) \<Rightarrow> rat \<Rightarrow> rat \<Rightarrow> rat" where
  "js_plus fl x y = fl (x + y)"

definition js_minus :: "(rat \<Rightarrow> rat) \<Rightarrow> rat \<Rightarrow> rat \<Rightarrow> rat" where
  "js_minus fl x y = fl (x - y)"

text \<open>
  The object handed to \<open>createBill\<close> is spread into the inserted row as it is. The
  type \<open>InsertBill\<close> has no bill number; the table requires one and keeps it unique,
  so the insert succeeds only for an object that carries one. \<open>vat\<close> and \<open>discount\<close>
  may be absent (the columns have the default 0). The amount columns of a bill are
  \<open>numeric(12, 2)\<close>.
\<close>

record insert_bill =
  ib_billNumber :: "string option"
  ib_customerName :: string
  ib_subtotal :: amount
  ib_makingCharges :: amount
  ib_gst :: amount
  ib_vat :: "amount option"
  ib_discount :: "amount option"
  ib_total :: amount
  ib_paidAmount :: amount
  ib_items :: "bill_item list"

text \<open>
  \<open>createBill\<close> returns the result of \<open>.returning()\<close>, the list of inserted rows.
  \<open>newId\<close> is the key the store generates and \<open>storeNow\<close> the time of the store,
  which the column defaults of \<open>createdAt\<close> and \<open>updatedAt\<close> record (the properties
  \<open>created_at\<close> and \<open>updated_at\<close> of the inserted object name no column).
\<close>

definition createBill ::
  "(rat \<Rightarrow> rat) \<Rightarrow> (rat \<Rightarrow> rat) \<Rightarrow> string \<Rightarrow> timestamp \<Rightarrow> db \<Rightarrow> insert_bill
     \<Rightarrow> bill list outcome \<times> db" where
  "createBill fl txt newId storeNow s bill =
     (let total = js_minus fl
                    (js_plus fl
                       (js_plus fl (Number fl (ib_subtotal bill)) (Number fl (ib_makingCharges bill)))
                       (Number fl (ib_gst bill)))
                    (Number_or_0 fl (ib_discount bill));
          vat = (case ib_vat bill of None \<Rightarrow> 0 | Some v \<Rightarrow> v);
          discount = (case ib_discount bill of None \<Rightarrow> 0 | Some v \<Rightarrow> v)
      in if \<not> (fits_numeric 12 (ib_subtotal bill) \<and> fits_numeric 12 (ib_makingCharges bill)
                \<and> fits_numeric 12 (ib_gst bill) \<and> fits_numeric 12 vat
                \<and> fits_numeric 12 discount \<and> fits_numeric 12 (txt total)
                \<and> fits_numeric 12 (ib_paidAmount bill))
         then (Raised (DatabaseError ''numeric field overflow''), s)
         else
           (case ib_billNumber bill of
              None \<Rightarrow> (Raised (DatabaseError ''null value violates not-null constraint''), s)
            | Some billNumber \<Rightarrow>
                if billNumber \<in> set (map b_billNumber (bills s))
                   \<or> newId \<in> set (map b_id (bills s))
                then (Raised (DatabaseError ''duplicate key value violates unique constraint''), s)
                else
                  (let row = \<lparr>b_id = newId,
                               b_billNumber = billNumber,
                               b_customerName = ib_customerName bill,
                               b_subtotal = round_cents (ib_subtotal bill),
                               b_makingCharges = round_cents (ib_makingCharges bill),
                               b_gst = round_cents (ib_gst bill),
                               b_vat = round_cents vat,
                               b_discount = round_cents discount,
                               b_total = round_cents (txt total),
                               b_paidAmount = round_cents (ib_paidAmount bill),
                               b_items = ib_items bill,
                               b_createdAt = Some storeNow,
                               b_updatedAt = Some storeNow\<rparr>;
                        result = [row]
                   in (Returned result, s\<lparr>bills := bills s @ result\<rparr>))))"

record bill_patch =
  bp_customerName :: "string option"
  bp_subtotal :: "amount option"
  bp_makingCharges :: "amount option"
  bp_gst :: "amount option"
  bp_vat :: "amount option"
  bp_discount :: "amount option"
  bp_total :: "amount option"
  bp_paidAmount :: "amount option"
  bp_items :: "bill_item list option"

text \<open>
  \<open>updateBill\<close> sets \<open>{...billData, total, updatedAt}\<close>: the computed total comes after
  the spread and replaces a total carried by \<open>billData\<close>. The key of a bill is a
  \<open>uuid\<close>; the store reads the id it is given as one (the parameter \<open>uuid_in\<close>, which
  gives the key in the form the rows hold it) and refuses a text that is none, before
  it looks at any row.
\<close>

definition apply_bill_patch :: "bill_patch \<Rightarrow> decimal \<Rightarrow> timestamp \<Rightarrow> bill \<Rightarrow> bill" where
  "apply_bill_patch d computed now b =
     b\<lparr>b_customerName := set_col (bp_customerName d) (b_customerName b),
       b_subtotal := set_col (map_option round_cents (bp_subtotal d)) (b_subtotal b),
       b_makingCharges := set_col (map_option round_cents (bp_makingCharges d)) (b_makingCharges b),
       b_gst := set_col (map_option round_cents (bp_gst d)) (b_gst b),
       b_vat := set_col (map_option round_cents (bp_vat d)) (b_vat b),
       b_discount := set_col (map_option round_cents (bp_discount d)) (b_discount b),
       b_paidAmount := set_col (map_option round_cents (bp_paidAmount d)) (b_paidAmount b),
       b_items := set_col (bp_items d) (b_items b),
       b_total := computed,
       b_updatedAt := Some now\<rparr>"

definition updateBill ::
  "(rat \<Rightarrow> rat) \<Rightarrow> (rat \<Rightarrow> rat) \<Rightarrow> (string \<Rightarrow> string option) \<Rightarrow> timestamp \<Rightarrow> db \<Rightarrow> string
     \<Rightarrow> bill_patch \<Rightarrow> bill option outcome \<times> db" where
  "updateBill fl txt uuid_in now s i billData =
     (let total = js_minus fl
                    (js_plus fl
                       (js_plus fl (Number_or_0 fl (bp_subtotal billData))
                          (Number_or_0 fl (bp_makingCharges billData)))
                       (Number_or_0 fl (bp_gst billData)))
                    (Number_or_0 fl (bp_discount billData))
      in case uuid_in i of
           None \<Rightarrow> (Raised (DatabaseError ''invalid input syntax for type uuid''), s)
         | Some u \<Rightarrow>
             if \<not> (fits_opt 12 (bp_subtotal billData) \<and> fits_opt 12 (bp_makingCharges billData)
                   \<and> fits_opt 12 (bp_gst billData) \<and> fits_opt 12 (bp_vat billData)
                   \<and> fits_opt 12 (bp_discount billData) \<and> fits_opt 12 (bp_paidAmount billData)
                   \<and> fits_numeric 12 (txt total))
             then (Raised (DatabaseError ''numeric field overflow''), s)
             else
               (Returned (first_row (returning (\<lambda>b. b_id b = u)
                            (apply_bill_patch billData (round_cents (txt total)) now) (bills s))),
                s\<lparr>bills := update_where (\<lambda>b. b_id b = u)
                              (apply_bill_patch billData (round_cents (txt total)) now) (bills s)\<rparr>))"

section \<open>Estimate operations\<close>

text \<open>
  \<open>String(n)\<close> of a non-negative integer is its decimal numeral, of a negative one
  the numeral after a minus sign. \<open>s.padStart(n, c)\<close> with a one-character pad puts
  copies of \<open>c\<close> in front of \<open>s\<close> until it has \<open>n\<close> characters, and leaves a longer
  \<open>s\<close> as it is.
\<close>

definition digit_char :: "nat \<Rightarrow> char" where
  "digit_char d = ''0123456789'' ! d"

fun String_nat :: "nat \<Rightarrow> string" where
  "String_nat n =
     (if n < 10 then [digit_char n] else String_nat (n div 10) @ [digit_char (n mod 10)])"

declare String_nat.simps [simp del]

definition String_int :: "int \<Rightarrow> string" where
  "String_int i = (if i < 0 then CHR ''-'' # String_nat (nat (- i)) else String_nat (nat i))"

definition padStart :: "nat \<Rightarrow> char \<Rightarrow> string \<Rightarrow> string" where
  "padStart n c str = replicate (n - length str) c @ str"

text \<open>Reading a decimal numeral back, leading zeros allowed.\<close>

definition digit_val :: "char \<Rightarrow> nat" where
  "digit_val c = of_char c - 48"

definition numeral_val :: "string \<Rightarrow> nat" where
  "numeral_val str = foldl (\<lambda>a c. 10 * a + digit_val c) 0 str"

text \<open>
  The calendar: \<open>new Date(year, month, 1)\<close> is the first instant of the month and
  \<open>new Date(year, month + 1, 0, 23, 59, 59, 999)\<close> the last millisecond of its last
  day (day 0 of the following month). The \<open>Date\<close> constructor reads a year from 0 to
  99 as a year of the twentieth century.
\<close>

definition leap_year :: "int \<Rightarrow> bool" where
  "leap_year y = (y mod 4 = 0 \<and> (y mod 100 \<noteq> 0 \<or> y mod 400 = 0))"

definition days_in_month :: "int \<Rightarrow> nat \<Rightarrow> nat" where
  "days_in_month y m =
     (if m = 1 then (if leap_year y then 29 else 28)
      else if m = 3 \<or> m = 5 \<or> m = 8 \<or> m = 10 then 30 else 31)"

definition Date_year :: "int \<Rightarrow> int" where
  "Date_year y = (if 0 \<le> y \<and> y \<le> 99 then 1900 + y else y)"

definition startOfMonth :: "timestamp \<Rightarrow> timestamp" where
  "startOfMonth now =
     \<lparr>ts_year = Date_year (ts_year now), ts_month = ts_month now, ts_day = 1,
      ts_hours = 0, ts_minutes = 0, ts_seconds = 0, ts_us = 0\<rparr>"

definition endOfMonth :: "timestamp \<Rightarrow> timestamp" where
  "endOfMonth now =
     \<lparr>ts_year = Date_year (ts_year now), ts_month = ts_month now,
      ts_day = days_in_month (Date_year (ts_year now)) (ts_month now),
      ts_hours = 23, ts_minutes = 59, ts_seconds = 59, ts_us = 999000\<rparr>"

definition valid_timestamp :: "timestamp \<Rightarrow> bool" where
  "valid_timestamp t =
     (ts_month t < 12 \<and> 1 \<le> ts_day t \<and> ts_day t \<le> days_in_month (ts_year t) (ts_month t)
      \<and> ts_hours t < 24 \<and> ts_minutes t < 60 \<and> ts_seconds t < 60 \<and> ts_us t < 1000000)"

text \<open>
  The argument of \<open>createEstimate\<close> has the insert type of the table: \<open>id\<close>,
  \<open>status\<close> and \<open>createdAt\<close> may be left to the column defaults, and \<open>createdAt\<close>,
  a nullable column, may be given as NULL. \<open>validUntil\<close> arrives as a \<open>Date\<close> or as a
  string, of which \<open>new Date(...)\<close> makes a \<open>Date\<close>, the invalid one when the string
  is no date (the parameter \<open>parseDate\<close> reads the string). \<open>totalAmount\<close> is a
  \<open>numeric(10, 2)\<close> column and stands for the amount columns of an estimate.
\<close>

datatype date_input = DateObj js_date | DateStr string

record insert_estimate =
  ie_id :: "string option"
  ie_quotationNo :: string
  ie_customerName :: string
  ie_totalAmount :: amount
  ie_validUntil :: date_input
  ie_status :: "string option"
  ie_createdAt :: "js_date option option"

definition new_Date :: "(string \<Rightarrow> timestamp option) \<Rightarrow> string \<Rightarrow> js_date" where
  "new_Date parseDate str = (case parseDate str of None \<Rightarrow> InvalidDate | Some t \<Rightarrow> Date t)"

definition in_month :: "timestamp \<Rightarrow> timestamp option \<Rightarrow> bool" where
  "in_month now createdAt =
     (case createdAt of
        None \<Rightarrow> False
      | Some t \<Rightarrow> gte t (startOfMonth now) \<and> lte t (endOfMonth now))"

definition monthlyEstimates :: "timestamp \<Rightarrow> db \<Rightarrow> estimate list" where
  "monthlyEstimates now s = filter (\<lambda>e. in_month now (e_createdAt e)) (estimates s)"

definition quotationNo_of :: "timestamp \<Rightarrow> nat \<Rightarrow> string" where
  "quotationNo_of now count =
     (let year = ts_year now;
          month = padStart 2 (CHR ''0'') (String_nat (ts_month now + 1));
          sequentialNumber = padStart 3 (CHR ''0'') (String_nat (count + 1))
      in ''PJ-QTN-'' @ String_int year @ ''-'' @ month @ ''-'' @ sequentialNumber)"

text \<open>
  \<open>createEstimate\<close>: \<open>now\<close> is the clock of the program, which gives the year and the
  month of the number; \<open>storeNow\<close> is the clock of the store, which the default of
  \<open>createdAt\<close> records; \<open>newId\<close> is the key the store generates. The insert raises
  when a date is invalid, when the amount does not fit its column and when the key is
  in use.
\<close>

definition createdAt_column :: "timestamp \<Rightarrow> js_date option option \<Rightarrow> timestamp option outcome" where
  "createdAt_column storeNow v =
     (case v of
        None \<Rightarrow> Returned (Some storeNow)
      | Some None \<Rightarrow> Returned None
      | Some (Some d) \<Rightarrow>
          (case toISOString d of Raised e \<Rightarrow> Raised e | Returned t \<Rightarrow> Returned (Some t)))"

definition createEstimate ::
  "(string \<Rightarrow> timestamp option) \<Rightarrow> string \<Rightarrow> timestamp \<Rightarrow> timestamp \<Rightarrow> db \<Rightarrow> insert_estimate
     \<Rightarrow> estimate outcome \<times> db" where
  "createEstimate parseDate newId now storeNow s insertEstimate =
     (let quotationNo = quotationNo_of now (length (monthlyEstimates now s));
          validUntil = (case ie_validUntil insertEstimate of
                          DateObj d \<Rightarrow> d
                        | DateStr str \<Rightarrow> new_Date parseDate str);
          key = (case ie_id insertEstimate of None \<Rightarrow> newId | Some i \<Rightarrow> i)
      in case toISOString validUntil of
           Raised e \<Rightarrow> (Raised e, s)
         | Returned until \<Rightarrow>
             (case createdAt_column storeNow (ie_createdAt insertEstimate) of
                Raised e \<Rightarrow> (Raised e, s)
              | Returned createdAt \<Rightarrow>
                  if \<not> fits_numeric 10 (ie_totalAmount insertEstimate)
                  then (Raised (DatabaseError ''numeric field overflow''), s)
                  else if key \<in> set (map e_id (estimates s))
                  then (Raised (DatabaseError ''duplicate key value violates unique constraint''), s)
                  else
                    (let row = \<lparr>e_id = key,
                                 e_quotationNo = quotationNo,
                                 e_customerName = ie_customerName insertEstimate,
                                 e_totalAmount = round_cents (ie_totalAmount insertEstimate),
                                 e_validUntil = until,
                                 e_status = (case ie_status insertEstimate of
                                               None \<Rightarrow> ''PENDING'' | Some st \<Rightarrow> st),
                                 e_createdAt = createdAt\<rparr>
                     in (Returned row, s\<lparr>estimates := estimates s @ [row]\<rparr>))))"

record estimate_patch =
  ep_customerName :: "string option"
  ep_totalAmount :: "amount option"
  ep_validUntil :: "date_input option"
  ep_status :: "string option"

text \<open>
  \<open>updateEstimate\<close> sets \<open>{...updateData, validUntil, updatedAt}\<close>, where a
  \<open>validUntil\<close> that is truthy (a \<open>Date\<close>, or a string that is not empty) is made a
  \<open>Date\<close>. An empty string stays a string, which has no \<open>toISOString\<close>. The table has
  no \<open>updatedAt\<close> column, so the \<open>updatedAt\<close> of the update object writes nothing, and
  an update with no other property reaches the store without a column to set.
\<close>

definition validUntil_column ::
  "(string \<Rightarrow> timestamp option) \<Rightarrow> date_input option \<Rightarrow> timestamp option outcome" where
  "validUntil_column parseDate v =
     (case v of
        None \<Rightarrow> Returned None
      | Some (DateObj d) \<Rightarrow>
          (case toISOString d of Raised e \<Rightarrow> Raised e | Returned t \<Rightarrow> Returned (Some t))
      | Some (DateStr str) \<Rightarrow>
          if str = [] then Raised (TypeError ''value.toISOString is not a function'')
          else (case toISOString (new_Date parseDate str) of
                  Raised e \<Rightarrow> Raised e
                | Returned t \<Rightarrow> Returned (Some t)))"

definition apply_estimate_patch :: "estimate_patch \<Rightarrow> timestamp option \<Rightarrow> estimate \<Rightarrow> estimate" where
  "apply_estimate_patch d until e =
     e\<lparr>e_customerName := set_col (ep_customerName d) (e_customerName e),
       e_totalAmount := set_col (map_option round_cents (ep_totalAmount d)) (e_totalAmount e),
       e_validUntil := set_col until (e_validUntil e),
       e_status := set_col (ep_status d) (e_status e)\<rparr>"

text \<open>
  \<open>updateEstimate\<close> is the one update with a \<open>throw\<close> of its own: when the update
  returns no row it raises \<open>Error('Estimate not found')\<close>.
\<close>

definition updateEstimate ::
  "(string \<Rightarrow> timestamp option) \<Rightarrow> db \<Rightarrow> string \<Rightarrow> estimate_patch \<Rightarrow> estimate outcome \<times> db" where
  "updateEstimate parseDate s i updateData =
     (case validUntil_column parseDate (ep_validUntil updateData) of
        Raised e \<Rightarrow> (Raised e, s)
      | Returned until \<Rightarrow>
          if ep_customerName updateData = None \<and> ep_totalAmount updateData = None
             \<and> ep_validUntil updateData = None \<and> ep_status updateData = None
          then (Raised (DatabaseError ''syntax error at or near where''), s)
          else if \<not> fits_opt 10 (ep_totalAmount updateData)
          then (Raised (DatabaseError ''numeric field overflow''), s)
          else
            (let returned = returning (\<lambda>e. e_id e = i) (apply_estimate_patch updateData until)
                              (estimates s);
                 s' = s\<lparr>estimates :=
                          update_where (\<lambda>e. e_id e = i) (apply_estimate_patch updateData until)
                            (estimates s)\<rparr>
             in case first_row returned of
                  None \<Rightarrow> (Raised (Error ''Estimate not found''), s')
                | Some estimate \<Rightarrow> (Returned estimate, s')))"

section \<open>Home section operations\<close>









text \<open>
  \<open>getHomeSectionItems\<close>: the inner join pairs each item of the section with every
  product row whose id is the item's \<open>productId\<close>; the only conditions are the join
  condition and the section id.
\<close>

record home_section_item_with_product = home_section_item +
  hi_product :: product

definition getHomeSectionItems :: "db \<Rightarrow> string \<Rightarrow> home_section_item_with_product list" where
  "getHomeSectionItems s sectionId =
     orderBy hi_position
       (concat
          (map (\<lambda>item.
                  map (\<lambda>p. home_section_item.extend item (home_section_item_with_product.fields p))
                    (filter (\<lambda>p. hi_productId item = p_id p) (products s)))
             (filter (\<lambda>item. hi_sectionId item = sectionId) (homeSectionItems s))))"

section \<open>An example store\<close>

definition at_day :: "int \<Rightarrow> nat \<Rightarrow> nat \<Rightarrow> timestamp" where
  "at_day y m d =
     \<lparr>ts_year = y, ts_month = m, ts_day = d,
      ts_hours = 10, ts_minutes = 30, ts_seconds = 0, ts_us = 0\<rparr>"

definition alice :: user where
  "alice =
     \<lparr>u_id = ''u1'', u_email = ''alice@example.com'', u_password = ''$2a$10$hash-of-secret'',
      u_name = ''Alice'', u_phone = None, u_role = ''admin'', u_stripeCustomerId = None,
      u_stripeSubscriptionId = None, u_otpCode = None, u_otpExpiry = None,
      u_otpVerified = Some False\<rparr>"

definition band :: product where
  "band = \<lparr>p_id = ''p1'', p_name = ''Plain band'', p_category = ''rings'', p_stock = 3,
            p_isActive = True, p_createdAt = Some (at_day 2025 0 5)\<rparr>"

definition signet :: product where
  "signet = \<lparr>p_id = ''p2'', p_name = ''Signet'', p_category = ''rings'', p_stock = 0,
              p_isActive = False, p_createdAt = Some (at_day 2025 1 9)\<rparr>"

definition rings :: category where
  "rings = \<lparr>c_id = ''c1'', c_name = ''Rings'', c_slug = ''rings'', c_parentId = None,
             c_displayOrder = Some 0, c_isActive = True, c_updatedAt = None\<rparr>"

definition engagement_rings :: category where
  "engagement_rings =
     \<lparr>c_id = ''c2'', c_name = ''Engagement rings'', c_slug = ''engagement-rings'',
      c_parentId = Some ''c1'', c_displayOrder = Some 1, c_isActive = True, c_updatedAt = None\<rparr>"

definition solitaires :: category where
  "solitaires =
     \<lparr>c_id = ''c3'', c_name = ''Solitaires'', c_slug = ''solitaires'',
      c_parentId = Some ''c2'', c_displayOrder = Some 2, c_isActive = True, c_updatedAt = None\<rparr>"

definition unmounted :: category where
  "unmounted =
     \<lparr>c_id = ''c4'', c_name = ''Unmounted stones'', c_slug = ''unmounted-stones'',
      c_parentId = Some ''c9'', c_displayOrder = Some 3, c_isActive = True, c_updatedAt = None\<rparr>"

definition bill1 :: bill where
  "bill1 =
     \<lparr>b_id = ''3f2b8c1e-6a4d-4e0b-9c57-2d1a7e5b9f10'', b_billNumber = ''BILL-001'', b_customerName = ''Ravi'',
      b_subtotal = 1000000, b_makingCharges = 150000, b_gst = 34500, b_vat = 0,
      b_discount = 5000, b_total = 1179500, b_paidAmount = 1179500, b_items = [],
      b_createdAt = Some (at_day 2025 2 1), b_updatedAt = Some (at_day 2025 2 1)\<rparr>"

definition estimate1 :: estimate where
  "estimate1 =
     \<lparr>e_id = ''e1'', e_quotationNo = ''PJ-QTN-2025-02-001'', e_customerName = ''Ravi'',
      e_totalAmount = 250000, e_validUntil = at_day 2025 2 27, e_status = ''SENT'',
      e_createdAt = Some (at_day 2025 1 27)\<rparr>"

definition estimate2 :: estimate where
  "estimate2 =
     \<lparr>e_id = ''e2'', e_quotationNo = ''PJ-QTN-2025-03-001'', e_customerName = ''Mina'',
      e_totalAmount = 990000, e_validUntil = at_day 2025 3 2, e_status = ''PENDING'',
      e_createdAt = Some (at_day 2025 2 2)\<rparr>"

definition request :: insert_estimate where
  "request =
     \<lparr>ie_id = None, ie_quotationNo = [], ie_customerName = ''Mina'', ie_totalAmount = 4800,
      ie_validUntil = DateStr ''2025-04-15'', ie_status = None, ie_createdAt = None\<rparr>"








definition uuid_text :: "string \<Rightarrow> string option" where
  "uuid_text str = (if length str = 36 then Some str else None)"

definition exact :: "rat \<Rightarrow> rat" where
  "exact x = x"

text \<open>
  A bill of 5000.00 + 750.00 + 172.50 - 25.00 whose line item does not add up to
  it, and an update of a bill that carries a subtotal and a discount only.
\<close>

definition order :: insert_bill where
  "order =
     \<lparr>ib_billNumber = Some ''BILL-002'', ib_customerName = ''Mina'', ib_subtotal = 5000,
      ib_makingCharges = 750, ib_gst = 345 / 2, ib_vat = None, ib_discount = Some 25,
      ib_total = 1, ib_paidAmount = 11795 / 2,
      ib_items = [\<lparr>bi_productId = ''p1'', bi_productName = ''Plain band'', bi_quantity = 2,
                   bi_priceInr = ''100.00'', bi_total = ''999.00''\<rparr>]\<rparr>"

definition repricing :: bill_patch where
  "repricing =
     \<lparr>bp_customerName = None, bp_subtotal = Some 2500, bp_makingCharges = None,
      bp_gst = None, bp_vat = None, bp_discount = Some 100, bp_total = Some 1,
      bp_paidAmount = None, bp_items = None\<rparr>"

definition featured :: home_section where
  "featured = \<lparr>hs_id = ''s1'', hs_title = ''Featured'', hs_isActive = True,
                hs_displayOrder = Some 0, hs_updatedAt = None\<rparr>"

definition item_band :: home_section_item where
  "item_band = \<lparr>hi_id = ''i1'', hi_sectionId = ''s1'', hi_productId = ''p1'',
                 hi_displayName = None, hi_position = 0\<rparr>"

definition item_signet :: home_section_item where
  "item_signet = \<lparr>hi_id = ''i2'', hi_sectionId = ''s1'', hi_productId = ''p2'',
                   hi_displayName = None, hi_position = 1\<rparr>"

definition item_gone :: home_section_item where
  "item_gone = \<lparr>hi_id = ''i3'', hi_sectionId = ''s1'', hi_productId = ''p9'',
                 hi_displayName = None, hi_position = 2\<rparr>"

definition shop :: db where
  "shop =
     \<lparr>users = [alice],
      products = [band, signet],
      categories = [rings, engagement_rings, solitaires],
      bills = [bill1],
      estimates = [estimate1, estimate2],
      homeSections = [featured],
      homeSectionItems = [item_band, item_signet, item_gone]\<rparr>"

section \<open>Properties of the query helpers\<close>

lemma set_orderBy_desc: "set (orderBy_desc k rows) = set rows"
  by (simp add: orderBy_desc_def)

lemma set_orderBy: "set (orderBy k rows) = set rows"
  by (simp add: orderBy_def)

lemma first_row_Some: "first_row rows = Some r \<Longrightarrow> r \<in> set rows"
  by (auto simp: first_row_def split: list.splits)

lemma first_row_None: "first_row rows = None \<longleftrightarrow> rows = []"
  by (auto simp: first_row_def split: list.splits)

section \<open>Product reads and the soft delete\<close>

text \<open>
  Claim C5. The three product reads return active products only: \<open>getAllProducts\<close>
  returns exactly the active rows, \<open>getProductsByCategory\<close> exactly the active rows
  of the category, a product returned by \<open>getProduct\<close> is a stored active row with
  the requested id, and \<open>getProduct\<close> of an id whose rows are all inactive is absent.
\<close>

theorem product_reads_only_active:
  "set (getAllProducts s) = {p \<in> set (products s). p_isActive p}
   \<and> set (getProductsByCategory s cat) = {p \<in> set (products s). p_category p = cat \<and> p_isActive p}
   \<and> (\<forall>p. getProduct s i = Some p \<longrightarrow> p \<in> set (products s) \<and> p_id p = i \<and> p_isActive p)
   \<and> ((\<forall>p \<in> set (products s). p_id p = i \<longrightarrow> \<not> p_isActive p) \<longrightarrow> getProduct s i = None)"
proof (intro conjI allI impI)
  show "set (getAllProducts s) = {p \<in> set (products s). p_isActive p}"
    by (auto simp: getAllProducts_def set_orderBy_desc)
  show "set (getProductsByCategory s cat) = {p \<in> set (products s). p_category p = cat \<and> p_isActive p}"
    by (auto simp: getProductsByCategory_def set_orderBy_desc)
next
  fix p assume "getProduct s i = Some p"
  then have "p \<in> set (filter (\<lambda>p. p_id p = i \<and> p_isActive p = True) (products s))"
    unfolding getProduct_def by (rule first_row_Some)
  then show "p \<in> set (products s)" "p_id p = i" "p_isActive p" by auto
next
  assume "\<forall>p \<in> set (products s). p_id p = i \<longrightarrow> \<not> p_isActive p"
  then have "filter (\<lambda>p. p_id p = i \<and> p_isActive p = True) (products s) = []"
    by (auto simp: filter_empty_conv)
  then show "getProduct s i = None"
    by (simp add: getProduct_def first_row_None)
qed

theorem product_reads_only_active_witness:
  "set (getAllProducts shop) = {band} \<and> set (getProductsByCategory shop ''rings'') = {band}
   \<and> getProduct shop ''p1'' = Some band \<and> p_isActive band \<and> getProduct shop ''p2'' = None"
proof -
  have h: "\<forall>p \<in> set (products shop). p_id p = ''p2'' \<longrightarrow> \<not> p_isActive p"
    by (simp add: shop_def band_def signet_def)
  have a: "{p \<in> set (products shop). p_isActive p} = {band}"
    by (auto simp: shop_def band_def signet_def)
  have b: "{p \<in> set (products shop). p_category p = ''rings'' \<and> p_isActive p} = {band}"
    by (auto simp: shop_def band_def signet_def)
  have c: "getProduct shop ''p1'' = Some band"
    by (simp add: getProduct_def first_row_def shop_def band_def signet_def)
  from product_reads_only_active [of shop "''rings''" "''p2''"] h a b c
  show ?thesis by (simp add: band_def)
qed




lemma first_row_returning:
  "first_row (returning P f rows) \<noteq> None \<longleftrightarrow> (\<exists>r \<in> set rows. P r)"
  by (auto simp: first_row_None returning_def filter_empty_conv)

lemma map_key_update_where:
  "(\<And>r. k (f r) = k r) \<Longrightarrow> map k (update_where P f rows) = map k rows"
  by (induction rows) (simp_all add: update_where_def)

lemma no_active_after_deactivation:
  "filter (\<lambda>p. p_id p = i \<and> p_isActive p)
     (update_where (\<lambda>p. p_id p = i) (\<lambda>p. p\<lparr>p_isActive := False\<rparr>) rows) = []"
  by (induction rows) (simp_all add: update_where_def)

text \<open>
  Claim C6. \<open>deleteProduct\<close> is a soft delete: it changes nothing but the
  \<open>isActive\<close> flag of the rows with the given id, which becomes false; no row is
  removed; it returns true exactly when a row has that id; and \<open>getProduct\<close> of
  that id is absent afterwards.
\<close>

theorem deleteProduct_soft:
  "snd (deleteProduct s i)
       = s\<lparr>products := map (\<lambda>p. if p_id p = i then p\<lparr>p_isActive := False\<rparr> else p) (products s)\<rparr>
   \<and> map p_id (products (snd (deleteProduct s i))) = map p_id (products s)
   \<and> (fst (deleteProduct s i) \<longleftrightarrow> (\<exists>p \<in> set (products s). p_id p = i))
   \<and> getProduct (snd (deleteProduct s i)) i = None"
proof -
  have st: "snd (deleteProduct s i)
       = s\<lparr>products := map (\<lambda>p. if p_id p = i then p\<lparr>p_isActive := False\<rparr> else p) (products s)\<rparr>"
    by (simp add: deleteProduct_def Let_def update_where_def)
  have ids: "map p_id (products (snd (deleteProduct s i))) = map p_id (products s)"
    by (simp add: deleteProduct_def Let_def map_key_update_where)
  have res: "fst (deleteProduct s i) \<longleftrightarrow> (\<exists>p \<in> set (products s). p_id p = i)"
    unfolding deleteProduct_def Let_def fst_conv by (rule first_row_returning)
  have gone: "getProduct (snd (deleteProduct s i)) i = None"
    by (simp add: getProduct_def deleteProduct_def Let_def no_active_after_deactivation
        first_row_None)
  show ?thesis by (rule conjI [OF st conjI [OF ids conjI [OF res gone]]])
qed

theorem deleteProduct_soft_witness:
  "getProduct shop ''p1'' = Some band
   \<and> fst (deleteProduct shop ''p1'')
   \<and> products (snd (deleteProduct shop ''p1'')) = [band\<lparr>p_isActive := False\<rparr>, signet]
   \<and> getProduct (snd (deleteProduct shop ''p1'')) ''p1'' = None
   \<and> \<not> fst (deleteProduct shop ''p9'')"
proof -
  have a: "getProduct shop ''p1'' = Some band"
    by (simp add: getProduct_def first_row_def shop_def band_def signet_def)
  have b: "\<exists>p \<in> set (products shop). p_id p = ''p1''"
    by (simp add: shop_def band_def)
  have c: "\<not> (\<exists>p \<in> set (products shop). p_id p = ''p9'')"
    by (simp add: shop_def band_def signet_def)
  have d: "map (\<lambda>p. if p_id p = ''p1'' then p\<lparr>p_isActive := False\<rparr> else p) (products shop)
             = [band\<lparr>p_isActive := False\<rparr>, signet]"
    by (simp add: shop_def band_def signet_def)
  note t1 = deleteProduct_soft [of shop "''p1''"]
  note t2 = deleteProduct_soft [of shop "''p9''"]
  have r1: "fst (deleteProduct shop ''p1'')" using t1 b by blast
  have r2: "products (snd (deleteProduct shop ''p1'')) = [band\<lparr>p_isActive := False\<rparr>, signet]"
    using t1 d by simp
  have r3: "getProduct (snd (deleteProduct shop ''p1'')) ''p1'' = None" using t1 by blast
  have r4: "\<not> fst (deleteProduct shop ''p9'')" using t2 c by blast
  show ?thesis by (rule conjI [OF a conjI [OF r1 conjI [OF r2 conjI [OF r3 r4]]]])
qed

section \<open>Authentication\<close>

lemma first_row_filter_distinct:
  "distinct (map k rows) \<Longrightarrow> r \<in> set rows \<Longrightarrow> first_row (filter (\<lambda>y. k y = k r) rows) = Some r"
proof (induction rows)
  case Nil
  then show ?case by simp
next
  case (Cons a rows)
  show ?case
  proof (cases "k a = k r")
    case True
    with Cons.prems have "a = r" by (metis distinct.simps(2) image_eqI list.simps(9) set_ConsD set_map)
    with True show ?thesis by (simp add: first_row_def)
  next
    case False
    with Cons show ?thesis by auto
  qed
qed

lemma first_row_filter_None:
  "first_row (filter P rows) = None \<longleftrightarrow> (\<forall>r \<in> set rows. \<not> P r)"
  by (simp add: first_row_None filter_empty_conv)

text \<open>
  Claim C8. \<open>authenticateUser\<close> never raises: it always resolves. It resolves
  to null when no user has the email, and when the user found by the email has a
  password hash the supplied password does not verify against; it resolves to a user
  exactly when that user is the one found by the email and the password verifies.
  With unique emails, for every stored user the result is the user or null according
  to the password check alone. Both failures give the same value.
\<close>

theorem authenticateUser_null_or_user:
  "(\<exists>r. authenticateUser compare s email password = Returned r)
   \<and> ((\<forall>u \<in> set (users s). u_email u \<noteq> email)
        \<longrightarrow> authenticateUser compare s email password = Returned None)
   \<and> (\<forall>u. getUserByEmail s email = Some u \<and> \<not> compare password (u_password u)
        \<longrightarrow> authenticateUser compare s email password = Returned None)
   \<and> (\<forall>u. authenticateUser compare s email password = Returned (Some u)
        \<longleftrightarrow> getUserByEmail s email = Some u \<and> compare password (u_password u))
   \<and> (distinct (map u_email (users s)) \<longrightarrow>
        (\<forall>u \<in> set (users s).
           authenticateUser compare s (u_email u) password
             = Returned (if compare password (u_password u) then Some u else None)))"
proof (intro conjI allI impI ballI)
  show "\<exists>r. authenticateUser compare s email password = Returned r"
    by (simp add: authenticateUser_def Let_def split: option.split)
next
  assume "\<forall>u \<in> set (users s). u_email u \<noteq> email"
  then have "getUserByEmail s email = None"
    by (simp add: getUserByEmail_def first_row_None filter_empty_conv)
  then show "authenticateUser compare s email password = Returned None"
    by (simp add: authenticateUser_def)
next
  fix u assume "getUserByEmail s email = Some u \<and> \<not> compare password (u_password u)"
  then show "authenticateUser compare s email password = Returned None"
    by (simp add: authenticateUser_def)
next
  fix u
  show "authenticateUser compare s email password = Returned (Some u)
        \<longleftrightarrow> getUserByEmail s email = Some u \<and> compare password (u_password u)"
    by (cases "getUserByEmail s email") (auto simp: authenticateUser_def Let_def)
next
  fix u assume d: "distinct (map u_email (users s))" and u: "u \<in> set (users s)"
  have "getUserByEmail s (u_email u) = Some u"
    unfolding getUserByEmail_def using d u by (rule first_row_filter_distinct)
  then show "authenticateUser compare s (u_email u) password
             = Returned (if compare password (u_password u) then Some u else None)"
    by (simp add: authenticateUser_def)
qed

theorem authenticateUser_null_or_user_witness:
  "authenticateUser (\<lambda>pw h. h = ''$2a$10$hash-of-'' @ pw) shop ''nouser@x.com'' ''anything'' = Returned None
   \<and> authenticateUser (\<lambda>pw h. h = ''$2a$10$hash-of-'' @ pw) shop ''alice@example.com'' ''wrong'' = Returned None
   \<and> authenticateUser (\<lambda>pw h. h = ''$2a$10$hash-of-'' @ pw) shop ''alice@example.com'' ''secret'' = Returned (Some alice)"
proof -
  let ?cmp = "\<lambda>pw h. h = ''$2a$10$hash-of-'' @ pw"
  have none: "\<forall>u \<in> set (users shop). u_email u \<noteq> ''nouser@x.com''"
    by (simp add: shop_def alice_def)
  have dist: "distinct (map u_email (users shop))"
    by (simp add: shop_def)
  have mem: "alice \<in> set (users shop)"
    by (simp add: shop_def)
  have em: "u_email alice = ''alice@example.com''"
    by (simp add: alice_def)
  have bad: "\<not> ?cmp ''wrong'' (u_password alice)"
    by (simp add: alice_def)
  have good: "?cmp ''secret'' (u_password alice)"
    by (simp add: alice_def)
  note t1 = authenticateUser_null_or_user [of ?cmp shop "''nouser@x.com''" "''anything''"]
  note t2 = authenticateUser_null_or_user [of ?cmp shop "''alice@example.com''" "''wrong''"]
  note t3 = authenticateUser_null_or_user [of ?cmp shop "''alice@example.com''" "''secret''"]
  have r1: "authenticateUser ?cmp shop ''nouser@x.com'' ''anything'' = Returned None"
    using t1 none by blast
  have "authenticateUser ?cmp shop (u_email alice) ''wrong''
          = Returned (if ?cmp ''wrong'' (u_password alice) then Some alice else None)"
    using t2 dist mem by blast
  then have r2: "authenticateUser ?cmp shop ''alice@example.com'' ''wrong'' = Returned None"
    using bad by (simp add: em)
  have "authenticateUser ?cmp shop (u_email alice) ''secret''
          = Returned (if ?cmp ''secret'' (u_password alice) then Some alice else None)"
    using t3 dist mem by blast
  then have r3: "authenticateUser ?cmp shop ''alice@example.com'' ''secret'' = Returned (Some alice)"
    using good by (simp add: em)
  show ?thesis by (rule conjI [OF r1 conjI [OF r2 r3]])
qed

section \<open>The category deletion guard\<close>

lemma length_orderBy: "length (orderBy k rows) = length rows"
  by (simp add: orderBy_def)

lemma has_children_iff:
  "0 < length (getSubCategories s i) \<longleftrightarrow> (\<exists>ch \<in> set (categories s). c_parentId ch = Some i)"
  by (simp add: getSubCategories_def length_orderBy filter_empty_conv)

lemma getCategory_stored:
  "distinct (map c_id (categories s)) \<Longrightarrow> c \<in> set (categories s) \<Longrightarrow>
     getCategory s (c_id c) = Some c"
  unfolding getCategory_def by (rule first_row_filter_distinct)

lemma slug_or_empty: "(if truthy (Some x) then the (Some x) else []) = x"
  by (simp add: truthy_def)

lemma distinct_key_unique:
  "distinct (map k rows) \<Longrightarrow> a \<in> set rows \<Longrightarrow> b \<in> set rows \<Longrightarrow> k a = k b \<Longrightarrow> a = b"
  by (meson distinct_map inj_onD)

lemma filter_other_ids:
  assumes d: "distinct (map k rows)" and r: "r \<in> set rows"
  shows "set (filter (\<lambda>x. \<not> k x = k r) rows) = set rows - {r}"
proof -
  have "\<And>x. x \<in> set rows \<Longrightarrow> (k x \<noteq> k r) = (x \<noteq> r)"
    using distinct_key_unique [OF d _ r] by blast
  then show ?thesis by auto
qed

text \<open>
  Claim C2. With unique category ids, for a stored category \<open>c\<close>: if some category
  has \<open>c\<close> as its parent, or some product (active or not) has the slug of \<open>c\<close> as
  its category, \<open>deleteCategory\<close> returns false and the store is unchanged; if
  neither is the case it returns true and removes exactly \<open>c\<close>.
\<close>

theorem deleteCategory_guard:
  assumes d: "distinct (map c_id (categories s))" and c: "c \<in> set (categories s)"
  shows "((\<exists>ch \<in> set (categories s). c_parentId ch = Some (c_id c))
            \<or> (\<exists>p \<in> set (products s). p_category p = c_slug c)
          \<longrightarrow> deleteCategory s (c_id c) = (False, s))
       \<and> (\<not> (\<exists>ch \<in> set (categories s). c_parentId ch = Some (c_id c))
            \<and> \<not> (\<exists>p \<in> set (products s). p_category p = c_slug c)
          \<longrightarrow> fst (deleteCategory s (c_id c)) = True
              \<and> snd (deleteCategory s (c_id c))
                  = s\<lparr>categories := filter (\<lambda>x. \<not> c_id x = c_id c) (categories s)\<rparr>
              \<and> set (categories (snd (deleteCategory s (c_id c)))) = set (categories s) - {c})"
proof (intro conjI impI)
  have g: "getCategory s (c_id c) = Some c" using d c by (rule getCategory_stored)
  have used: "0 < length (filter (\<lambda>p. p_category p = c_slug c) (products s))
                \<longleftrightarrow> (\<exists>p \<in> set (products s). p_category p = c_slug c)"
    by (simp add: filter_empty_conv)
  {
    assume "(\<exists>ch \<in> set (categories s). c_parentId ch = Some (c_id c))
            \<or> (\<exists>p \<in> set (products s). p_category p = c_slug c)"
    then show "deleteCategory s (c_id c) = (False, s)"
    proof
      assume "\<exists>ch \<in> set (categories s). c_parentId ch = Some (c_id c)"
      then have "0 < length (getSubCategories s (c_id c))"
        using has_children_iff [of s "c_id c"] by blast
      then show ?thesis by (simp add: deleteCategory_def Let_def)
    next
      assume "\<exists>p \<in> set (products s). p_category p = c_slug c"
      then have "0 < length (filter (\<lambda>p. p_category p = c_slug c) (products s))"
        using used by blast
      then show ?thesis by (simp add: deleteCategory_def Let_def g slug_or_empty)
    qed
  }
  assume free: "\<not> (\<exists>ch \<in> set (categories s). c_parentId ch = Some (c_id c))
            \<and> \<not> (\<exists>p \<in> set (products s). p_category p = c_slug c)"
  then have nc: "\<not> 0 < length (getSubCategories s (c_id c))"
    using has_children_iff [of s "c_id c"] by blast
  from free have np: "\<not> 0 < length (filter (\<lambda>p. p_category p = c_slug c) (products s))"
    using used by blast
  from c have rc: "0 < length (filter (\<lambda>x. c_id x = c_id c) (categories s))"
    by (simp add: filter_empty_conv) blast
  show "fst (deleteCategory s (c_id c)) = True"
    using nc np rc by (simp add: deleteCategory_def Let_def g slug_or_empty)
  show st: "snd (deleteCategory s (c_id c))
                  = s\<lparr>categories := filter (\<lambda>x. \<not> c_id x = c_id c) (categories s)\<rparr>"
    using nc np by (simp add: deleteCategory_def Let_def g slug_or_empty)
  show "set (categories (snd (deleteCategory s (c_id c)))) = set (categories s) - {c}"
    using filter_other_ids [OF d c] by (simp add: st)
qed

theorem deleteCategory_guard_witness:
  "deleteCategory shop ''c1'' = (False, shop)
   \<and> deleteCategory (shop\<lparr>categories := [rings], products := [signet]\<rparr>) ''c1'' = (False, shop\<lparr>categories := [rings], products := [signet]\<rparr>)
   \<and> fst (deleteCategory shop ''c3'') = True
   \<and> set (categories (snd (deleteCategory shop ''c3''))) = {rings, engagement_rings}"
proof -
  let ?s2 = "shop\<lparr>categories := [rings], products := [signet]\<rparr>"
  have d: "distinct (map c_id (categories shop))"
    by (simp add: shop_def rings_def engagement_rings_def solitaires_def)
  have d2: "distinct (map c_id (categories ?s2))" by simp
  have m1: "rings \<in> set (categories shop)" by (simp add: shop_def)
  have m2: "rings \<in> set (categories ?s2)" by simp
  have m3: "solitaires \<in> set (categories shop)" by (simp add: shop_def)
  have i1: "c_id rings = ''c1''" by (simp add: rings_def)
  have i3: "c_id solitaires = ''c3''" by (simp add: solitaires_def)
  have child: "\<exists>ch \<in> set (categories shop). c_parentId ch = Some (c_id rings)"
    by (simp add: shop_def rings_def engagement_rings_def)
  have inactive_ref: "\<exists>p \<in> set (products ?s2). p_category p = c_slug rings"
    by (simp add: rings_def signet_def)
  have free: "\<not> (\<exists>ch \<in> set (categories shop). c_parentId ch = Some (c_id solitaires))
            \<and> \<not> (\<exists>p \<in> set (products shop). p_category p = c_slug solitaires)"
    by (simp add: shop_def rings_def engagement_rings_def solitaires_def band_def signet_def)
  have rest: "set (categories shop) - {solitaires} = {rings, engagement_rings}"
    by (auto simp: shop_def rings_def engagement_rings_def solitaires_def)
  have r1: "deleteCategory shop (c_id rings) = (False, shop)"
    using deleteCategory_guard [OF d m1] child by blast
  have r2: "deleteCategory ?s2 (c_id rings) = (False, ?s2)"
    using deleteCategory_guard [OF d2 m2] inactive_ref by blast
  have r3: "fst (deleteCategory shop (c_id solitaires)) = True
            \<and> set (categories (snd (deleteCategory shop (c_id solitaires))))
                = set (categories shop) - {solitaires}"
    using deleteCategory_guard [OF d m3] free by blast
  show ?thesis using r1 r2 r3 by (simp add: i1 i3 rest)
qed

section \<open>Home section items\<close>

text \<open>
  Claim C4. The items of a home section are joined with the products on the product id
  alone. In the example store, section \<open>s1\<close> has three items: one for the active
  product \<open>p1\<close>, one for the soft-deleted product \<open>p2\<close> and one for \<open>p9\<close>, of
  which no row exists. The item of the missing product is left out, but the item of the
  soft-deleted product is returned, with the inactive product that \<open>getProduct\<close>
  no longer finds.
\<close>

theorem getHomeSectionItems_returns_inactive_product:
  "getHomeSectionItems shop ''s1''
     = [home_section_item.extend item_band (home_section_item_with_product.fields band),
        home_section_item.extend item_signet (home_section_item_with_product.fields signet)]
   \<and> getProduct shop ''p2'' = None
   \<and> \<not> p_isActive (hi_product (getHomeSectionItems shop ''s1'' ! 1))"
proof -
  have a: "getHomeSectionItems shop ''s1''
     = [home_section_item.extend item_band (home_section_item_with_product.fields band),
        home_section_item.extend item_signet (home_section_item_with_product.fields signet)]"
    by (simp add: getHomeSectionItems_def orderBy_def shop_def item_band_def item_signet_def
        item_gone_def band_def signet_def home_section_item.extend_def
        home_section_item_with_product.fields_def)
  have b: "getProduct shop ''p2'' = None"
    by (simp add: getProduct_def first_row_def shop_def band_def signet_def)
  have c: "\<not> p_isActive (hi_product (getHomeSectionItems shop ''s1'' ! 1))"
    by (simp add: a signet_def home_section_item.extend_def
        home_section_item_with_product.fields_def)
  show ?thesis by (rule conjI [OF a conjI [OF b c]])
qed

section \<open>The category hierarchy\<close>

lemma length_filter_eq_distinct:
  "distinct xs \<Longrightarrow> length (filter (\<lambda>x. x = c) xs) = (if c \<in> set xs then 1 else 0)"
  by (induction xs) auto

lemma length_filter_key_distinct:
  "distinct (map k xs) \<Longrightarrow>
     length (filter (\<lambda>x. v = k x) xs) = (if v \<in> k ` set xs then 1 else 0)"
  by (induction xs) auto

lemma count_list_filter: "count_list (filter P xs) c = (if P c then count_list xs c else 0)"
  by (induction xs) auto

lemma count_list_distinct:
  "distinct xs \<Longrightarrow> count_list xs c = (if c \<in> set xs then 1 else 0)"
  by (induction xs) auto

lemma sum_list_indicator:
  "sum_list (map (\<lambda>m. if Q m then (1::nat) else 0) xs) = length (filter Q xs)"
  by (induction xs) auto

lemma distinct_orderBy: "distinct (orderBy k rows) = distinct rows"
  by (simp add: orderBy_def)

lemma distinct_map_orderBy: "distinct (map f (orderBy k rows)) = distinct (map f rows)"
  by (simp add: distinct_map distinct_orderBy set_orderBy)

lemma truncate_extend: "category.truncate (category.extend m x) = m"
  by (simp add: category.defs)

lemma children_extend:
  "children (category.extend m (category_with_children.fields ch)) = ch"
  by (simp add: category.defs category_with_children.defs)

lemma root_count_hierarchy:
  assumes d: "distinct (categories s)" and c: "c \<in> set (categories s)"
  shows "root_count c (getCategoriesHierarchy s) = (if truthy (c_parentId c) then 0 else 1)"
proof -
  let ?all = "getAllCategories s"
  let ?mains = "filter (\<lambda>cat. \<not> truthy (c_parentId cat)) ?all"
  have dm: "distinct ?mains" using d by (simp add: getAllCategories_def distinct_orderBy)
  have "root_count c (getCategoriesHierarchy s) = length (filter (\<lambda>m. m = c) ?mains)"
    by (simp add: root_count_def getCategoriesHierarchy_def Let_def filter_map comp_def
        truncate_extend)
  also have "\<dots> = (if c \<in> set ?mains then 1 else 0)"
    using dm by (rule length_filter_eq_distinct)
  also have "\<dots> = (if truthy (c_parentId c) then 0 else 1)"
    using c by (simp add: getAllCategories_def set_orderBy)
  finally show ?thesis .
qed

lemma child_count_hierarchy:
  assumes d: "distinct (map c_id (categories s))" and c: "c \<in> set (categories s)"
  shows "child_count c (getCategoriesHierarchy s)
           = (if \<exists>r \<in> set (categories s). \<not> truthy (c_parentId r) \<and> c_parentId c = Some (c_id r)
              then 1 else 0)"
proof -
  let ?all = "getAllCategories s"
  let ?mains = "filter (\<lambda>cat. \<not> truthy (c_parentId cat)) ?all"
  have da: "distinct ?all"
    using d by (simp add: getAllCategories_def distinct_orderBy distinct_map)
  have ca: "c \<in> set ?all" using c by (simp add: getAllCategories_def set_orderBy)
  have one: "count_list ?all c = 1" using da ca by (simp add: count_list_distinct)
  have dmi: "distinct (map c_id ?mains)"
    using d by (simp add: getAllCategories_def distinct_map_orderBy distinct_map_filter)
  have "child_count c (getCategoriesHierarchy s)
          = sum_list (map (\<lambda>m. count_list (filter (\<lambda>cat. c_parentId cat = Some (c_id m)) ?all) c) ?mains)"
    by (simp add: child_count_def getCategoriesHierarchy_def Let_def comp_def children_extend)
  also have "\<dots> = sum_list (map (\<lambda>m. if c_parentId c = Some (c_id m) then 1 else 0) ?mains)"
    by (simp add: count_list_filter one cong: if_cong)
  also have "\<dots> = length (filter (\<lambda>m. c_parentId c = Some (c_id m)) ?mains)"
    by (rule sum_list_indicator)
  finally have eq: "child_count c (getCategoriesHierarchy s)
          = length (filter (\<lambda>m. c_parentId c = Some (c_id m)) ?mains)" .
  show ?thesis
  proof (cases "c_parentId c")
    case None
    then show ?thesis by (simp add: eq)
  next
    case (Some p)
    have "length (filter (\<lambda>m. p = c_id m) ?mains) = (if p \<in> c_id ` set ?mains then 1 else 0)"
      using dmi by (rule length_filter_key_distinct)
    moreover have "p \<in> c_id ` set ?mains
        \<longleftrightarrow> (\<exists>r \<in> set (categories s). \<not> truthy (c_parentId r) \<and> p = c_id r)"
      by (auto simp: getAllCategories_def set_orderBy)
    ultimately show ?thesis by (simp add: eq Some)
  qed
qed


lemma hierarchy_counts:
  assumes d: "distinct (map c_id (categories s))" and c: "c \<in> set (categories s)"
  shows "root_count c (getCategoriesHierarchy s) = (if truthy (c_parentId c) then 0 else 1)
     \<and> child_count c (getCategoriesHierarchy s)
           = (if \<exists>r \<in> set (categories s). \<not> truthy (c_parentId r) \<and> c_parentId c = Some (c_id r)
              then 1 else 0)
     \<and> (\<forall>r \<in> set (getCategoriesHierarchy s).
           count_list (children r) c = (if c_parentId c = Some (c_id r) then 1 else 0))
     \<and> (\<forall>r \<in> set (getCategoriesHierarchy s).
           category.truncate r \<in> set (categories s) \<and> \<not> truthy (c_parentId r)
           \<and> set (children r) \<subseteq> set (categories s))"
proof (intro conjI ballI)
  from d have dc: "distinct (categories s)" by (simp add: distinct_map)
  show "root_count c (getCategoriesHierarchy s) = (if truthy (c_parentId c) then 0 else 1)"
    using dc c by (rule root_count_hierarchy)
  show "child_count c (getCategoriesHierarchy s)
           = (if \<exists>r \<in> set (categories s). \<not> truthy (c_parentId r) \<and> c_parentId c = Some (c_id r)
              then 1 else 0)"
    using d c by (rule child_count_hierarchy)
  have one: "count_list (getAllCategories s) c = 1"
    using dc c by (simp add: count_list_distinct getAllCategories_def distinct_orderBy set_orderBy)
  fix r assume "r \<in> set (getCategoriesHierarchy s)"
  then obtain m where m: "m \<in> set (getAllCategories s)" "\<not> truthy (c_parentId m)"
    and r: "r = category.extend m (category_with_children.fields
               (filter (\<lambda>cat. c_parentId cat = Some (c_id m)) (getAllCategories s)))"
    by (auto simp: getCategoriesHierarchy_def Let_def)
  have id: "c_id r = c_id m" and par: "c_parentId r = c_parentId m"
    by (simp_all add: r category.defs)
  have ch: "children r = filter (\<lambda>cat. c_parentId cat = Some (c_id m)) (getAllCategories s)"
    by (simp add: r children_extend)
  have tr: "category.truncate r = m" by (simp add: r truncate_extend)
  show "count_list (children r) c = (if c_parentId c = Some (c_id r) then 1 else 0)"
    by (simp add: ch id count_list_filter one)
  show "category.truncate r \<in> set (categories s)"
    using m(1) by (simp add: tr getAllCategories_def set_orderBy)
  show "\<not> truthy (c_parentId r)" using m(2) by (simp add: par)
  show "set (children r) \<subseteq> set (categories s)"
    by (auto simp: ch getAllCategories_def set_orderBy)
qed


text \<open>
  Claim C1, as the code has it. The hierarchy is one level deep. With unique ids, a
  stored category is a root entry exactly once when its \<open>parentId\<close> is absent (null
  or empty) and never otherwise; it is in a children list exactly once, the list of its
  parent, when its \<open>parentId\<close> is the id of a root category, and in no children list
  otherwise. Every root entry and every child is a stored category. So a category
  whose \<open>parentId\<close> is not the empty string is placed once when it has no parent or
  its parent is a root, and not at all otherwise.
\<close>

theorem getCategoriesHierarchy_one_level:
  assumes d: "distinct (map c_id (categories s))" and c: "c \<in> set (categories s)"
  shows "root_count c (getCategoriesHierarchy s) = (if truthy (c_parentId c) then 0 else 1)
     \<and> child_count c (getCategoriesHierarchy s)
           = (if \<exists>r \<in> set (categories s). \<not> truthy (c_parentId r) \<and> c_parentId c = Some (c_id r)
              then 1 else 0)
     \<and> (\<forall>r \<in> set (getCategoriesHierarchy s).
           count_list (children r) c = (if c_parentId c = Some (c_id r) then 1 else 0))
     \<and> (\<forall>r \<in> set (getCategoriesHierarchy s).
           category.truncate r \<in> set (categories s) \<and> \<not> truthy (c_parentId r)
           \<and> set (children r) \<subseteq> set (categories s))
     \<and> (c_parentId c \<noteq> Some [] \<longrightarrow>
           placements c (getCategoriesHierarchy s)
             = (if c_parentId c = None
                   \<or> (\<exists>r \<in> set (categories s). \<not> truthy (c_parentId r)
                         \<and> c_parentId c = Some (c_id r))
                then 1 else 0))"
proof -
  note counts = hierarchy_counts [OF d c]
  from counts have rc: "root_count c (getCategoriesHierarchy s)
                          = (if truthy (c_parentId c) then 0 else 1)"
    by (rule conjunct1)
  from counts have cc: "child_count c (getCategoriesHierarchy s)
           = (if \<exists>r \<in> set (categories s). \<not> truthy (c_parentId r) \<and> c_parentId c = Some (c_id r)
              then 1 else 0)"
    by (rule conjunct2 [THEN conjunct1])
  have "c_parentId c \<noteq> Some [] \<longrightarrow>
           placements c (getCategoriesHierarchy s)
             = (if c_parentId c = None
                   \<or> (\<exists>r \<in> set (categories s). \<not> truthy (c_parentId r)
                         \<and> c_parentId c = Some (c_id r))
                then 1 else 0)"
  proof (cases "c_parentId c")
    case None
    then show ?thesis by (simp add: placements_def rc cc truthy_def)
  next
    case (Some p)
    show ?thesis
    proof
      assume "c_parentId c \<noteq> Some []"
      with Some have "truthy (c_parentId c)" by (simp add: truthy_def)
      then show "placements c (getCategoriesHierarchy s)
             = (if c_parentId c = None
                   \<or> (\<exists>r \<in> set (categories s). \<not> truthy (c_parentId r)
                         \<and> c_parentId c = Some (c_id r))
                then 1 else 0)"
        by (simp add: placements_def rc cc Some)
    qed
  qed
  with counts show ?thesis by blast
qed

theorem getCategoriesHierarchy_one_level_witness:
  "root_count rings (getCategoriesHierarchy shop) = 1
   \<and> child_count rings (getCategoriesHierarchy shop) = 0
   \<and> root_count engagement_rings (getCategoriesHierarchy shop) = 0
   \<and> child_count engagement_rings (getCategoriesHierarchy shop) = 1
   \<and> root_count solitaires (getCategoriesHierarchy shop) = 0
   \<and> child_count solitaires (getCategoriesHierarchy shop) = 0
   \<and> placements engagement_rings (getCategoriesHierarchy shop) = 1
   \<and> placements solitaires (getCategoriesHierarchy shop) = 0"
proof -
  have d: "distinct (map c_id (categories shop))"
    by (simp add: shop_def rings_def engagement_rings_def solitaires_def)
  have m1: "rings \<in> set (categories shop)" by (simp add: shop_def)
  have m2: "engagement_rings \<in> set (categories shop)" by (simp add: shop_def)
  have m3: "solitaires \<in> set (categories shop)" by (simp add: shop_def)
  have p1: "\<not> truthy (c_parentId rings)" by (simp add: truthy_def rings_def)
  have p2: "truthy (c_parentId engagement_rings)" by (simp add: truthy_def engagement_rings_def)
  have p3: "truthy (c_parentId solitaires)" by (simp add: truthy_def solitaires_def)
  have q1: "\<not> (\<exists>r \<in> set (categories shop). \<not> truthy (c_parentId r)
                  \<and> c_parentId rings = Some (c_id r))"
    by (simp add: rings_def)
  have q2: "\<exists>r \<in> set (categories shop). \<not> truthy (c_parentId r)
                  \<and> c_parentId engagement_rings = Some (c_id r)"
    by (simp add: shop_def truthy_def rings_def engagement_rings_def)
  have q3: "\<not> (\<exists>r \<in> set (categories shop). \<not> truthy (c_parentId r)
                  \<and> c_parentId solitaires = Some (c_id r))"
    by (simp add: shop_def truthy_def rings_def engagement_rings_def solitaires_def)
  note t1 = getCategoriesHierarchy_one_level [OF d m1]
  note t2 = getCategoriesHierarchy_one_level [OF d m2]
  note t3 = getCategoriesHierarchy_one_level [OF d m3]
  have r1: "root_count rings (getCategoriesHierarchy shop) = 1" using t1 p1 by simp
  have r2: "child_count rings (getCategoriesHierarchy shop) = 0" using t1 q1 by simp
  have r3: "root_count engagement_rings (getCategoriesHierarchy shop) = 0" using t2 p2 by simp
  have r4: "child_count engagement_rings (getCategoriesHierarchy shop) = 1" using t2 q2 by simp
  have r5: "root_count solitaires (getCategoriesHierarchy shop) = 0" using t3 p3 by simp
  have r6: "child_count solitaires (getCategoriesHierarchy shop) = 0" using t3 q3 by simp
  have n2: "c_parentId engagement_rings \<noteq> Some [] \<and> c_parentId engagement_rings \<noteq> None"
    by (simp add: engagement_rings_def)
  have n3: "c_parentId solitaires \<noteq> Some [] \<and> c_parentId solitaires \<noteq> None"
    by (simp add: solitaires_def)
  have r7: "placements engagement_rings (getCategoriesHierarchy shop) = 1"
    using t2 n2 q2 by simp
  have r8: "placements solitaires (getCategoriesHierarchy shop) = 0"
    using t3 n3 q3 by simp
  show ?thesis
    by (rule conjI [OF r1 conjI [OF r2 conjI [OF r3 conjI [OF r4 conjI [OF r5
          conjI [OF r6 conjI [OF r7 r8]]]]]]])
qed

text \<open>
  Claim C1, as stated, fails: a category under a non-root category, and a category whose
  \<open>parentId\<close> names no category, are stored but placed nowhere in the hierarchy.
\<close>

theorem getCategoriesHierarchy_loses_categories:
  "solitaires \<in> set (categories shop)
   \<and> placements solitaires (getCategoriesHierarchy shop) = 0
   \<and> unmounted \<in> set (categories (shop\<lparr>categories := [rings, unmounted]\<rparr>))
   \<and> placements unmounted (getCategoriesHierarchy (shop\<lparr>categories := [rings, unmounted]\<rparr>)) = 0"
proof -
  have h1: "getCategoriesHierarchy shop
              = [category.extend rings (category_with_children.fields [engagement_rings])]"
    by (simp add: getCategoriesHierarchy_def getAllCategories_def orderBy_def nulls_last_def
        truthy_def shop_def rings_def engagement_rings_def solitaires_def)
  have h2: "getCategoriesHierarchy (shop\<lparr>categories := [rings, unmounted]\<rparr>)
              = [category.extend rings (category_with_children.fields [])]"
    by (simp add: getCategoriesHierarchy_def getAllCategories_def orderBy_def nulls_last_def
        truthy_def rings_def unmounted_def)
  have a: "solitaires \<in> set (categories shop)" by (simp add: shop_def)
  have b: "placements solitaires (getCategoriesHierarchy shop) = 0"
    unfolding h1 placements_def root_count_def child_count_def
    by (simp add: truncate_extend children_extend rings_def engagement_rings_def solitaires_def)
  have c: "unmounted \<in> set (categories (shop\<lparr>categories := [rings, unmounted]\<rparr>))" by simp
  have e: "placements unmounted (getCategoriesHierarchy (shop\<lparr>categories := [rings, unmounted]\<rparr>)) = 0"
    unfolding h2 placements_def root_count_def child_count_def
    by (simp add: truncate_extend children_extend rings_def unmounted_def)
  show ?thesis by (rule conjI [OF a conjI [OF b conjI [OF c e]]])
qed

section \<open>Rounding of amounts\<close>

text \<open>
  What a \<open>numeric(p, 2)\<close> column stores is within half a hundredth of what it
  receives, and is the received value when that is a whole number of hundredths up to
  an error below half a hundredth. The computed total of a bill passes through eight
  roundings, four conversions, three operations and the text, each below a ten
  thousandth on amounts that fit their column.
\<close>

lemma round_cents_error: "\<bar>of_int (round_cents x) / 100 - x\<bar> \<le> 1 / 200"
proof (cases "0 \<le> x")
  case True
  define n where "n = \<lfloor>x * 100 + 1 / 2\<rfloor>"
  have "of_int n \<le> x * 100 + 1 / 2" "x * 100 + 1 / 2 < of_int n + 1"
    unfolding n_def by linarith+
  moreover have "round_cents x = n" using True by (simp add: round_cents_def n_def)
  ultimately show ?thesis by linarith
next
  case False
  define n where "n = \<lfloor>- x * 100 + 1 / 2\<rfloor>"
  have "of_int n \<le> - x * 100 + 1 / 2" "- x * 100 + 1 / 2 < of_int n + 1"
    unfolding n_def by linarith+
  moreover have "of_int (round_cents x) = - (of_int n :: rat)" using False by (simp add: round_cents_def n_def)
  ultimately show ?thesis by linarith
qed

lemma round_cents_exact:
  assumes "\<bar>t - y\<bar> < 1 / 200" and "y * 100 = of_int k"
  shows "round_cents t = k"
proof (cases "0 \<le> t")
  case True
  have "of_int k \<le> t * 100 + 1 / 2" "t * 100 + 1 / 2 < of_int k + 1"
    using assms by linarith+
  hence "\<lfloor>t * 100 + 1 / 2\<rfloor> = k" by linarith
  with True show ?thesis unfolding round_cents_def by simp
next
  case False
  have "of_int (- k) = - (of_int k :: rat)" by simp
  hence "of_int (- k) \<le> - t * 100 + 1 / 2" "- t * 100 + 1 / 2 < of_int (- k) + 1"
    using assms by linarith+
  hence "\<lfloor>- t * 100 + 1 / 2\<rfloor> = - k" by linarith
  with False show ?thesis unfolding round_cents_def by simp
qed

lemma abs_round_cents: "\<bar>round_cents x\<bar> = \<lfloor>\<bar>x\<bar> * 100 + 1 / 2\<rfloor>"
proof (cases "0 \<le> x")
  case True
  hence "0 \<le> x * 100 + 1 / 2" by simp
  hence "0 \<le> \<lfloor>x * 100 + 1 / 2\<rfloor>" by simp
  with True show ?thesis unfolding round_cents_def by simp
next
  case False
  hence "0 \<le> - x * 100 + 1 / 2" by simp
  hence "0 \<le> \<lfloor>- x * 100 + 1 / 2\<rfloor>" by (simp only: zero_le_floor)
  with False show ?thesis unfolding round_cents_def by simp
qed

lemma fits_numeric_iff: "fits_numeric p x \<longleftrightarrow> \<bar>x\<bar> < 10 ^ p / 100 - 1 / 200"
proof -
  have "\<lfloor>\<bar>x\<bar> * 100 + 1 / 2\<rfloor> < 10 ^ p \<longleftrightarrow> \<bar>x\<bar> * 100 + 1 / 2 < of_int (10 ^ p)"
    by (rule floor_less_iff)
  moreover have "of_int (10 ^ p) = (10::rat) ^ p" by simp
  ultimately have "\<lfloor>\<bar>x\<bar> * 100 + 1 / 2\<rfloor> < 10 ^ p \<longleftrightarrow> \<bar>x\<bar> < 10 ^ p / 100 - 1 / 200"
    by linarith
  thus ?thesis unfolding fits_numeric_def abs_round_cents .
qed

lemma fits_numeric_12: "fits_numeric 12 x \<longleftrightarrow> \<bar>x\<bar> < 10 ^ 10 - 1 / 200"
  unfolding fits_numeric_iff by simp


lemma double_rounding_step:
  assumes "double_rounding f" and "\<bar>x\<bar> \<le> 50000000000"
  shows "\<bar>f x - x\<bar> \<le> 1 / 10000"
proof -
  have "\<bar>x\<bar> \<le> 10 ^ 12" using assms(2) by simp
  hence "\<bar>f x - x\<bar> \<le> (\<bar>x\<bar> + 1) / 10 ^ 15" using assms(1) unfolding double_rounding_def by blast
  also have "\<dots> \<le> 1 / 10000" using assms(2) by simp
  finally show ?thesis .
qed

lemma abs_bounds: "\<bar>x\<bar> \<le> (c::rat) \<Longrightarrow> - c \<le> x \<and> x \<le> c"
  by linarith

lemma total_error:
  assumes fl: "double_rounding fl" and tx: "double_rounding txt"
    and a: "\<bar>a\<bar> \<le> 10000000000" "\<bar>x1 - a\<bar> \<le> 1 / 10000"
    and b: "\<bar>b\<bar> \<le> 10000000000" "\<bar>x2 - b\<bar> \<le> 1 / 10000"
    and c: "\<bar>c\<bar> \<le> 10000000000" "\<bar>x3 - c\<bar> \<le> 1 / 10000"
    and d: "\<bar>d\<bar> \<le> 10000000000" "\<bar>x4 - d\<bar> \<le> 1 / 10000"
  shows "\<bar>txt (fl (fl (fl (x1 + x2) + x3) - x4)) - (a + b + c - d)\<bar> \<le> 1 / 1250"
proof -
  define y1 where "y1 = fl (x1 + x2)"
  define y2 where "y2 = fl (y1 + x3)"
  define y3 where "y3 = fl (y2 - x4)"
  note a' = abs_bounds [OF a(1)] abs_bounds [OF a(2)]
  note b' = abs_bounds [OF b(1)] abs_bounds [OF b(2)]
  note c' = abs_bounds [OF c(1)] abs_bounds [OF c(2)]
  note d' = abs_bounds [OF d(1)] abs_bounds [OF d(2)]
  have "- 50000000000 \<le> x1 + x2 \<and> x1 + x2 \<le> 50000000000" using a' b' by linarith
  hence "\<bar>x1 + x2\<bar> \<le> 50000000000" by linarith
  hence "\<bar>y1 - (x1 + x2)\<bar> \<le> 1 / 10000" unfolding y1_def by (rule double_rounding_step [OF fl])
  note s1 = abs_bounds [OF this]
  have e1: "- (3 / 10000) \<le> y1 - (a + b) \<and> y1 - (a + b) \<le> 3 / 10000" using s1 a' b' by linarith
  have "- 50000000000 \<le> y1 + x3 \<and> y1 + x3 \<le> 50000000000" using e1 a' b' c' by linarith
  hence "\<bar>y1 + x3\<bar> \<le> 50000000000" by linarith
  hence "\<bar>y2 - (y1 + x3)\<bar> \<le> 1 / 10000" unfolding y2_def by (rule double_rounding_step [OF fl])
  note s2 = abs_bounds [OF this]
  have e2: "- (5 / 10000) \<le> y2 - (a + b + c) \<and> y2 - (a + b + c) \<le> 5 / 10000"
    using s2 e1 c' by linarith
  have "- 50000000000 \<le> y2 - x4 \<and> y2 - x4 \<le> 50000000000" using e2 a' b' c' d' by linarith
  hence "\<bar>y2 - x4\<bar> \<le> 50000000000" by linarith
  hence "\<bar>y3 - (y2 - x4)\<bar> \<le> 1 / 10000" unfolding y3_def by (rule double_rounding_step [OF fl])
  note s3 = abs_bounds [OF this]
  have e3: "- (7 / 10000) \<le> y3 - (a + b + c - d) \<and> y3 - (a + b + c - d) \<le> 7 / 10000"
    using s3 e2 d' by linarith
  have "- 50000000000 \<le> y3 \<and> y3 \<le> 50000000000" using e3 a' b' c' d' by linarith
  hence "\<bar>y3\<bar> \<le> 50000000000" by linarith
  hence "\<bar>txt y3 - y3\<bar> \<le> 1 / 10000" by (rule double_rounding_step [OF tx])
  note s4 = abs_bounds [OF this]
  have "- (1 / 1250) \<le> txt y3 - (a + b + c - d) \<and> txt y3 - (a + b + c - d) \<le> 1 / 1250"
    using s4 e3 by linarith
  hence "\<bar>txt y3 - (a + b + c - d)\<bar> \<le> 1 / 1250" by linarith
  thus ?thesis unfolding y3_def y2_def y1_def .
qed

section \<open>Bill totals\<close>

lemma double_rounding_exact: "double_rounding exact"
  unfolding double_rounding_def exact_def by simp

lemma in_range_le: "in_range_12_2 x \<Longrightarrow> \<bar>x\<bar> \<le> 10000000000"
  by simp

lemma number_error:
  assumes "double_rounding fl" and "in_range_12_2 a"
  shows "\<bar>Number fl a - a\<bar> \<le> 1 / 10000"
  unfolding Number_def using assms by (intro double_rounding_step) simp_all

lemma or_0_le: "present_in_range_12_2 x \<Longrightarrow> \<bar>or_0 x\<bar> \<le> 10000000000"
  by (cases x) simp_all

lemma number_or_0_error:
  assumes "double_rounding fl" and "present_in_range_12_2 x"
  shows "\<bar>Number_or_0 fl x - or_0 x\<bar> \<le> 1 / 10000"
proof (cases x)
  case None
  thus ?thesis by (simp add: Number_or_0_def)
next
  case (Some v)
  hence "\<bar>fl v - v\<bar> \<le> 1 / 10000" using assms by (intro double_rounding_step) simp_all
  with Some show ?thesis by (simp add: Number_or_0_def)
qed

lemma createBill_total_error:
  assumes "double_rounding fl" and "double_rounding txt"
    and "in_range_12_2 a" and "in_range_12_2 b" and "in_range_12_2 c"
    and "present_in_range_12_2 d"
  shows "\<bar>txt (js_minus fl (js_plus fl (js_plus fl (Number fl a) (Number fl b)) (Number fl c))
                (Number_or_0 fl d)) - (a + b + c - or_0 d)\<bar> \<le> 1 / 1250"
  unfolding js_minus_def js_plus_def
  by (rule total_error [OF assms(1,2) in_range_le [OF assms(3)] number_error [OF assms(1,3)]
        in_range_le [OF assms(4)] number_error [OF assms(1,4)]
        in_range_le [OF assms(5)] number_error [OF assms(1,5)]
        or_0_le [OF assms(6)] number_or_0_error [OF assms(1,6)]])

lemma updateBill_total_error:
  assumes "double_rounding fl" and "double_rounding txt"
    and "present_in_range_12_2 a" and "present_in_range_12_2 b" and "present_in_range_12_2 c"
    and "present_in_range_12_2 d"
  shows "\<bar>txt (js_minus fl (js_plus fl (js_plus fl (Number_or_0 fl a) (Number_or_0 fl b))
                (Number_or_0 fl c)) (Number_or_0 fl d)) - (or_0 a + or_0 b + or_0 c - or_0 d)\<bar>
           \<le> 1 / 1250"
  unfolding js_minus_def js_plus_def
  by (rule total_error [OF assms(1,2) or_0_le [OF assms(3)] number_or_0_error [OF assms(1,3)]
        or_0_le [OF assms(4)] number_or_0_error [OF assms(1,4)]
        or_0_le [OF assms(5)] number_or_0_error [OF assms(1,5)]
        or_0_le [OF assms(6)] number_or_0_error [OF assms(1,6)]])

lemma fits_total:
  assumes "\<bar>t - S\<bar> \<le> 1 / 1250" and "\<bar>S\<bar> \<le> 10 ^ 10 - 1 / 50"
  shows "fits_numeric 12 t"
proof -
  have P: "(10::rat) ^ 10 = 10000000000" by simp
  show ?thesis using assms unfolding fits_numeric_12 P by linarith
qed

lemma overflow_total:
  assumes "\<bar>t - S\<bar> \<le> 1 / 1250" and "10 ^ 10 \<le> \<bar>S\<bar>"
  shows "\<not> fits_numeric 12 t"
proof -
  have P: "(10::rat) ^ 10 = 10000000000" by simp
  show ?thesis using assms unfolding fits_numeric_12 P by linarith
qed

lemma stored_total:
  assumes "\<bar>t - S\<bar> \<le> 1 / 1250"
  shows "\<bar>of_int (round_cents t) / 100 - S\<bar> \<le> 1 / 200 + 1 / 1250"
    and "S * 100 = of_int n \<Longrightarrow> round_cents t = n"
proof -
  show "\<bar>of_int (round_cents t) / 100 - S\<bar> \<le> 1 / 200 + 1 / 1250"
    using round_cents_error [of t] assms by linarith
  assume "S * 100 = of_int n"
  moreover have "\<bar>t - S\<bar> < 1 / 200" using assms by linarith
  ultimately show "round_cents t = n" by (intro round_cents_exact)
qed

lemma fits_opt_12: "fits_opt 12 v \<longleftrightarrow> present_in_range_12_2 v"
  by (cases v) (simp_all add: fits_opt_def fits_numeric_12)

lemma createBill_accepted:
  assumes "fits_numeric 12 (ib_subtotal bill)" and "fits_numeric 12 (ib_makingCharges bill)"
    and "fits_numeric 12 (ib_gst bill)" and "fits_numeric 12 (or_0 (ib_vat bill))"
    and "fits_numeric 12 (or_0 (ib_discount bill))"
    and "fits_numeric 12 (txt (js_minus fl (js_plus fl (js_plus fl (Number fl (ib_subtotal bill))
           (Number fl (ib_makingCharges bill))) (Number fl (ib_gst bill)))
           (Number_or_0 fl (ib_discount bill))))"
    and "fits_numeric 12 (ib_paidAmount bill)"
    and "ib_billNumber bill = Some n" and "n \<notin> set (map b_billNumber (bills s))"
    and "newId \<notin> set (map b_id (bills s))"
  shows "\<exists>row. createBill fl txt newId storeNow s bill
                 = (Returned [row], s\<lparr>bills := bills s @ [row]\<rparr>)
           \<and> b_id row = newId \<and> b_billNumber row = n
           \<and> b_subtotal row = round_cents (ib_subtotal bill)
           \<and> b_makingCharges row = round_cents (ib_makingCharges bill)
           \<and> b_gst row = round_cents (ib_gst bill)
           \<and> b_discount row = round_cents (or_0 (ib_discount bill))
           \<and> b_total row = round_cents (txt (js_minus fl (js_plus fl (js_plus fl
                 (Number fl (ib_subtotal bill)) (Number fl (ib_makingCharges bill)))
                 (Number fl (ib_gst bill))) (Number_or_0 fl (ib_discount bill))))
           \<and> b_items row = ib_items bill"
  using assms by (simp add: createBill_def Let_def)

lemma createBill_rejected:
  assumes "\<not> (fits_numeric 12 (ib_subtotal bill) \<and> fits_numeric 12 (ib_makingCharges bill)
    \<and> fits_numeric 12 (ib_gst bill) \<and> fits_numeric 12 (or_0 (ib_vat bill))
    \<and> fits_numeric 12 (or_0 (ib_discount bill))
    \<and> fits_numeric 12 (txt (js_minus fl (js_plus fl (js_plus fl (Number fl (ib_subtotal bill))
           (Number fl (ib_makingCharges bill))) (Number fl (ib_gst bill)))
           (Number_or_0 fl (ib_discount bill))))
    \<and> fits_numeric 12 (ib_paidAmount bill))
    \<or> ib_billNumber bill = None
    \<or> (\<exists>m. ib_billNumber bill = Some m \<and> m \<in> set (map b_billNumber (bills s)))
    \<or> newId \<in> set (map b_id (bills s))"
  shows "\<exists>e. createBill fl txt newId storeNow s bill = (Raised e, s)"
  using assms by (cases "ib_billNumber bill") (auto simp: createBill_def Let_def)

text \<open>
  Claim C7. \<open>createBill\<close> on any bill either raises and leaves the store as it was,
  or inserts exactly one row and returns it. The total of that row is
  subtotal + makingCharges + gst - discount of the input, the discount counting as 0
  when absent, to the precision of the column: it differs from the exact sum \<open>S\<close> by at
  most half a hundredth and the error of the double arithmetic (below 0.0008), and
  it is \<open>S\<close> itself when \<open>S\<close> is a whole number of hundredths. A total carried by the
  input plays no part. The line items are stored as supplied, whatever they add up
  to. The row is inserted when every amount and \<open>S\<close> are in the range of
  \<open>numeric(12, 2)\<close>, the bill number is given and new, and the key is new;
  \<open>createBill\<close> raises when an amount or \<open>S\<close> is out of range, when the bill number is
  missing or in use, and when the key is in use.
\<close>

theorem createBill_total:
  assumes "double_rounding fl" and "double_rounding txt"
    and "S = ib_subtotal bill + ib_makingCharges bill + ib_gst bill - or_0 (ib_discount bill)"
  shows
    "(in_range_12_2 (ib_subtotal bill) \<and> in_range_12_2 (ib_makingCharges bill)
        \<and> in_range_12_2 (ib_gst bill) \<and> present_in_range_12_2 (ib_vat bill)
        \<and> present_in_range_12_2 (ib_discount bill) \<and> in_range_12_2 (ib_paidAmount bill)
        \<and> \<bar>S\<bar> \<le> 10 ^ 10 - 1 / 50
        \<and> ib_billNumber bill = Some n \<and> n \<notin> set (map b_billNumber (bills s))
        \<and> newId \<notin> set (map b_id (bills s))
      \<longrightarrow> (\<exists>row. createBill fl txt newId storeNow s bill
                     = (Returned [row], s\<lparr>bills := bills s @ [row]\<rparr>)
               \<and> \<bar>of_int (b_total row) / 100 - S\<bar> \<le> 1 / 200 + 1 / 1250
               \<and> (\<forall>k. S * 100 = of_int k \<longrightarrow> b_total row = k)
               \<and> b_items row = ib_items bill
               \<and> b_billNumber row = n \<and> b_id row = newId
               \<and> \<bar>of_int (b_subtotal row) / 100 - ib_subtotal bill\<bar> \<le> 1 / 200
               \<and> \<bar>of_int (b_makingCharges row) / 100 - ib_makingCharges bill\<bar> \<le> 1 / 200
               \<and> \<bar>of_int (b_gst row) / 100 - ib_gst bill\<bar> \<le> 1 / 200
               \<and> \<bar>of_int (b_discount row) / 100 - or_0 (ib_discount bill)\<bar> \<le> 1 / 200))
     \<and> (\<not> in_range_12_2 (ib_subtotal bill) \<or> \<not> in_range_12_2 (ib_makingCharges bill)
        \<or> \<not> in_range_12_2 (ib_gst bill) \<or> \<not> present_in_range_12_2 (ib_vat bill)
        \<or> \<not> present_in_range_12_2 (ib_discount bill) \<or> \<not> in_range_12_2 (ib_paidAmount bill)
        \<or> 10 ^ 10 \<le> \<bar>S\<bar>
        \<or> ib_billNumber bill = None
        \<or> (\<exists>m. ib_billNumber bill = Some m \<and> m \<in> set (map b_billNumber (bills s)))
        \<or> newId \<in> set (map b_id (bills s))
      \<longrightarrow> (\<exists>e. createBill fl txt newId storeNow s bill = (Raised e, s)))
     \<and> ((\<exists>e. createBill fl txt newId storeNow s bill = (Raised e, s))
        \<or> (\<exists>row. createBill fl txt newId storeNow s bill
                     = (Returned [row], s\<lparr>bills := bills s @ [row]\<rparr>)
               \<and> \<bar>of_int (b_total row) / 100 - S\<bar> \<le> 1 / 200 + 1 / 1250
               \<and> (\<forall>k. S * 100 = of_int k \<longrightarrow> b_total row = k)
               \<and> b_items row = ib_items bill))"
proof -
  define T where "T = txt (js_minus fl (js_plus fl (js_plus fl (Number fl (ib_subtotal bill))
           (Number fl (ib_makingCharges bill))) (Number fl (ib_gst bill)))
           (Number_or_0 fl (ib_discount bill)))"
  define F where "F \<longleftrightarrow> in_range_12_2 (ib_subtotal bill) \<and> in_range_12_2 (ib_makingCharges bill)
        \<and> in_range_12_2 (ib_gst bill) \<and> present_in_range_12_2 (ib_vat bill)
        \<and> present_in_range_12_2 (ib_discount bill) \<and> in_range_12_2 (ib_paidAmount bill)"
  define K where "K \<longleftrightarrow> (\<exists>m. ib_billNumber bill = Some m \<and> m \<notin> set (map b_billNumber (bills s)))
        \<and> newId \<notin> set (map b_id (bills s))"
  have vat: "fits_numeric 12 (or_0 (ib_vat bill)) \<longleftrightarrow> present_in_range_12_2 (ib_vat bill)"
    by (cases "ib_vat bill") (simp_all add: fits_numeric_12)
  have disc: "fits_numeric 12 (or_0 (ib_discount bill)) \<longleftrightarrow> present_in_range_12_2 (ib_discount bill)"
    by (cases "ib_discount bill") (simp_all add: fits_numeric_12)
  have err: "\<bar>T - S\<bar> \<le> 1 / 1250" if F
    unfolding T_def assms(3)
    using that unfolding F_def by (intro createBill_total_error assms(1,2)) simp_all
  have accepted: "\<exists>row. createBill fl txt newId storeNow s bill
                     = (Returned [row], s\<lparr>bills := bills s @ [row]\<rparr>)
               \<and> \<bar>of_int (b_total row) / 100 - S\<bar> \<le> 1 / 200 + 1 / 1250
               \<and> (\<forall>k. S * 100 = of_int k \<longrightarrow> b_total row = k)
               \<and> b_items row = ib_items bill
               \<and> b_billNumber row = m \<and> b_id row = newId
               \<and> \<bar>of_int (b_subtotal row) / 100 - ib_subtotal bill\<bar> \<le> 1 / 200
               \<and> \<bar>of_int (b_makingCharges row) / 100 - ib_makingCharges bill\<bar> \<le> 1 / 200
               \<and> \<bar>of_int (b_gst row) / 100 - ib_gst bill\<bar> \<le> 1 / 200
               \<and> \<bar>of_int (b_discount row) / 100 - or_0 (ib_discount bill)\<bar> \<le> 1 / 200"
    if F and fits: "fits_numeric 12 T" and m: "ib_billNumber bill = Some m"
      "m \<notin> set (map b_billNumber (bills s))" "newId \<notin> set (map b_id (bills s))" for m
  proof -
    have "\<exists>row. createBill fl txt newId storeNow s bill
                 = (Returned [row], s\<lparr>bills := bills s @ [row]\<rparr>)
           \<and> b_id row = newId \<and> b_billNumber row = m
           \<and> b_subtotal row = round_cents (ib_subtotal bill)
           \<and> b_makingCharges row = round_cents (ib_makingCharges bill)
           \<and> b_gst row = round_cents (ib_gst bill)
           \<and> b_discount row = round_cents (or_0 (ib_discount bill))
           \<and> b_total row = round_cents T
           \<and> b_items row = ib_items bill"
    proof -
      have f: "fits_numeric 12 (ib_subtotal bill)" "fits_numeric 12 (ib_makingCharges bill)"
        "fits_numeric 12 (ib_gst bill)" "fits_numeric 12 (ib_paidAmount bill)"
        using \<open>F\<close> unfolding F_def fits_numeric_12 by blast+
      have g: "fits_numeric 12 (or_0 (ib_vat bill))" "fits_numeric 12 (or_0 (ib_discount bill))"
        using \<open>F\<close> unfolding F_def vat disc by blast+
      show ?thesis
        unfolding T_def
        by (rule createBill_accepted [of bill "txt" fl, OF f(1,2,3) g fits [unfolded T_def] f(4) m])
    qed
    then obtain row where row: "createBill fl txt newId storeNow s bill
                 = (Returned [row], s\<lparr>bills := bills s @ [row]\<rparr>)"
      "b_id row = newId" "b_billNumber row = m"
      "b_subtotal row = round_cents (ib_subtotal bill)"
      "b_makingCharges row = round_cents (ib_makingCharges bill)"
      "b_gst row = round_cents (ib_gst bill)"
      "b_discount row = round_cents (or_0 (ib_discount bill))"
      "b_total row = round_cents T" "b_items row = ib_items bill"
      by blast
    note t = stored_total [OF err [OF \<open>F\<close>]]
    have "\<bar>of_int (b_total row) / 100 - S\<bar> \<le> 1 / 200 + 1 / 1250"
      unfolding row(8) by (rule t(1))
    moreover have "\<forall>k. S * 100 = of_int k \<longrightarrow> b_total row = k"
      unfolding row(8) using t(2) by blast
    moreover have "\<bar>of_int (b_subtotal row) / 100 - ib_subtotal bill\<bar> \<le> 1 / 200"
      "\<bar>of_int (b_makingCharges row) / 100 - ib_makingCharges bill\<bar> \<le> 1 / 200"
      "\<bar>of_int (b_gst row) / 100 - ib_gst bill\<bar> \<le> 1 / 200"
      "\<bar>of_int (b_discount row) / 100 - or_0 (ib_discount bill)\<bar> \<le> 1 / 200"
      unfolding row by (rule round_cents_error)+
    ultimately show ?thesis using row(1,2,3,9) by blast
  qed
  have rejected: "\<exists>e. createBill fl txt newId storeNow s bill = (Raised e, s)"
    if "\<not> F \<or> \<not> fits_numeric 12 T \<or> \<not> K"
  proof -
    have "F \<longleftrightarrow> fits_numeric 12 (ib_subtotal bill) \<and> fits_numeric 12 (ib_makingCharges bill)
      \<and> fits_numeric 12 (ib_gst bill) \<and> fits_numeric 12 (or_0 (ib_vat bill))
      \<and> fits_numeric 12 (or_0 (ib_discount bill)) \<and> fits_numeric 12 (ib_paidAmount bill)"
      unfolding vat disc unfolding F_def fits_numeric_12 by (rule refl)
    moreover have "\<not> K \<longleftrightarrow> ib_billNumber bill = None
      \<or> (\<exists>m. ib_billNumber bill = Some m \<and> m \<in> set (map b_billNumber (bills s)))
      \<or> newId \<in> set (map b_id (bills s))"
      unfolding K_def by (cases "ib_billNumber bill") auto
    ultimately show ?thesis
      using that unfolding T_def by (intro createBill_rejected [of bill "txt" fl]) blast
  qed
  show ?thesis
  proof (intro conjI impI)
    assume a: "in_range_12_2 (ib_subtotal bill) \<and> in_range_12_2 (ib_makingCharges bill)
        \<and> in_range_12_2 (ib_gst bill) \<and> present_in_range_12_2 (ib_vat bill)
        \<and> present_in_range_12_2 (ib_discount bill) \<and> in_range_12_2 (ib_paidAmount bill)
        \<and> \<bar>S\<bar> \<le> 10 ^ 10 - 1 / 50
        \<and> ib_billNumber bill = Some n \<and> n \<notin> set (map b_billNumber (bills s))
        \<and> newId \<notin> set (map b_id (bills s))"
    hence F unfolding F_def by blast
    moreover have "fits_numeric 12 T" using err [OF \<open>F\<close>] a by (intro fits_total) blast+
    ultimately show "\<exists>row. createBill fl txt newId storeNow s bill
                     = (Returned [row], s\<lparr>bills := bills s @ [row]\<rparr>)
               \<and> \<bar>of_int (b_total row) / 100 - S\<bar> \<le> 1 / 200 + 1 / 1250
               \<and> (\<forall>k. S * 100 = of_int k \<longrightarrow> b_total row = k)
               \<and> b_items row = ib_items bill
               \<and> b_billNumber row = n \<and> b_id row = newId
               \<and> \<bar>of_int (b_subtotal row) / 100 - ib_subtotal bill\<bar> \<le> 1 / 200
               \<and> \<bar>of_int (b_makingCharges row) / 100 - ib_makingCharges bill\<bar> \<le> 1 / 200
               \<and> \<bar>of_int (b_gst row) / 100 - ib_gst bill\<bar> \<le> 1 / 200
               \<and> \<bar>of_int (b_discount row) / 100 - or_0 (ib_discount bill)\<bar> \<le> 1 / 200"
      using a by (intro accepted) blast+
  next
    assume r: "\<not> in_range_12_2 (ib_subtotal bill) \<or> \<not> in_range_12_2 (ib_makingCharges bill)
        \<or> \<not> in_range_12_2 (ib_gst bill) \<or> \<not> present_in_range_12_2 (ib_vat bill)
        \<or> \<not> present_in_range_12_2 (ib_discount bill) \<or> \<not> in_range_12_2 (ib_paidAmount bill)
        \<or> 10 ^ 10 \<le> \<bar>S\<bar>
        \<or> ib_billNumber bill = None
        \<or> (\<exists>m. ib_billNumber bill = Some m \<and> m \<in> set (map b_billNumber (bills s)))
        \<or> newId \<in> set (map b_id (bills s))"
    have "\<not> F \<or> \<not> fits_numeric 12 T \<or> \<not> K"
    proof (cases F)
      case True
      show ?thesis
      proof (cases "10 ^ 10 \<le> \<bar>S\<bar>")
        case True
        hence "\<not> fits_numeric 12 T" using err [OF \<open>F\<close>] by (intro overflow_total)
        thus ?thesis by blast
      next
        case False
        hence "\<not> K" using r \<open>F\<close> unfolding F_def K_def by auto
        thus ?thesis by blast
      qed
    qed blast
    thus "\<exists>e. createBill fl txt newId storeNow s bill = (Raised e, s)" by (rule rejected)
  next
    show "(\<exists>e. createBill fl txt newId storeNow s bill = (Raised e, s))
        \<or> (\<exists>row. createBill fl txt newId storeNow s bill
                     = (Returned [row], s\<lparr>bills := bills s @ [row]\<rparr>)
               \<and> \<bar>of_int (b_total row) / 100 - S\<bar> \<le> 1 / 200 + 1 / 1250
               \<and> (\<forall>k. S * 100 = of_int k \<longrightarrow> b_total row = k)
               \<and> b_items row = ib_items bill)"
    proof (cases "F \<and> fits_numeric 12 T \<and> K")
      case True
      then obtain m where m: "ib_billNumber bill = Some m"
        "m \<notin> set (map b_billNumber (bills s))" "newId \<notin> set (map b_id (bills s))"
        unfolding K_def by blast
      from True have F and "fits_numeric 12 T" by blast+
      from accepted [OF this m] show ?thesis by blast
    next
      case False
      hence "\<not> F \<or> \<not> fits_numeric 12 T \<or> \<not> K" by blast
      from rejected [OF this] show ?thesis by blast
    qed
  qed
qed

theorem createBill_total_witness:
  "double_rounding exact
   \<and> (\<exists>row. createBill exact exact ''0e7a5c2d-1b3f-4a6c-8d9e-2f4b6a8c0e1d'' (at_day 2025 5 1) shop order
              = (Returned [row], shop\<lparr>bills := bills shop @ [row]\<rparr>)
          \<and> b_total row = 589750
          \<and> b_items row = ib_items order)
   \<and> (\<exists>e. createBill exact exact ''0e7a5c2d-1b3f-4a6c-8d9e-2f4b6a8c0e1d'' (at_day 2025 5 1) shop
              (order\<lparr>ib_subtotal := 10000000000\<rparr>)
            = (Raised e, shop))"
proof -
  note ex = double_rounding_exact
  have S: "(11795 / 2 :: rat) = ib_subtotal order + ib_makingCharges order + ib_gst order
             - or_0 (ib_discount order)"
    by (simp add: order_def)
  note t = createBill_total [OF ex ex S, of "''BILL-002''" shop
             "''0e7a5c2d-1b3f-4a6c-8d9e-2f4b6a8c0e1d''" "at_day 2025 5 1"]
  have accept: "in_range_12_2 (ib_subtotal order) \<and> in_range_12_2 (ib_makingCharges order)
        \<and> in_range_12_2 (ib_gst order) \<and> present_in_range_12_2 (ib_vat order)
        \<and> present_in_range_12_2 (ib_discount order) \<and> in_range_12_2 (ib_paidAmount order)
        \<and> \<bar>11795 / 2 :: rat\<bar> \<le> 10 ^ 10 - 1 / 50
        \<and> ib_billNumber order = Some ''BILL-002''
        \<and> ''BILL-002'' \<notin> set (map b_billNumber (bills shop))
        \<and> ''0e7a5c2d-1b3f-4a6c-8d9e-2f4b6a8c0e1d'' \<notin> set (map b_id (bills shop))"
    by (simp add: order_def shop_def bill1_def)
  from t [THEN conjunct1, THEN mp, OF accept]
  obtain row where row:
    "createBill exact exact ''0e7a5c2d-1b3f-4a6c-8d9e-2f4b6a8c0e1d'' (at_day 2025 5 1) shop order
       = (Returned [row], shop\<lparr>bills := bills shop @ [row]\<rparr>)"
    "\<forall>k. (11795 / 2 :: rat) * 100 = of_int k \<longrightarrow> b_total row = k"
    "b_items row = ib_items order"
    by blast
  have "(11795 / 2 :: rat) * 100 = of_int 589750" by simp
  with row(2) have "b_total row = 589750" by blast
  with row(1,3) have first: "\<exists>row. createBill exact exact ''0e7a5c2d-1b3f-4a6c-8d9e-2f4b6a8c0e1d''
              (at_day 2025 5 1) shop order
              = (Returned [row], shop\<lparr>bills := bills shop @ [row]\<rparr>)
          \<and> b_total row = 589750
          \<and> b_items row = ib_items order"
    by blast
  define big where "big = order\<lparr>ib_subtotal := 10000000000\<rparr>"
  have S': "(20000001795 / 2 :: rat) = ib_subtotal big + ib_makingCharges big + ib_gst big
             - or_0 (ib_discount big)"
    by (simp add: order_def big_def)
  have "\<not> in_range_12_2 (ib_subtotal big)" by (simp add: big_def)
  with createBill_total [OF ex ex S', of _ shop "''0e7a5c2d-1b3f-4a6c-8d9e-2f4b6a8c0e1d''" "at_day 2025 5 1",
      THEN conjunct2, THEN conjunct1]
  have "\<exists>e. createBill exact exact ''0e7a5c2d-1b3f-4a6c-8d9e-2f4b6a8c0e1d'' (at_day 2025 5 1) shop big
            = (Raised e, shop)"
    by blast
  hence second: "\<exists>e. createBill exact exact ''0e7a5c2d-1b3f-4a6c-8d9e-2f4b6a8c0e1d''
       (at_day 2025 5 1) shop (order\<lparr>ib_subtotal := 10000000000\<rparr>) = (Raised e, shop)"
    unfolding big_def .
  from ex first second show ?thesis by (intro conjI)
qed

section \<open>The total of an updated bill\<close>

lemma nth_update_where:
  "k < length rows \<Longrightarrow>
     update_where P f rows ! k = (if P (rows ! k) then f (rows ! k) else rows ! k)"
  by (simp add: update_where_def)

lemma length_update_where: "length (update_where P f rows) = length rows"
  by (simp add: update_where_def)

lemma first_row_returning_Some:
  "first_row (returning P f rows) = Some r' \<Longrightarrow> \<exists>r \<in> set rows. P r \<and> r' = f r"
proof -
  assume "first_row (returning P f rows) = Some r'"
  then have "r' \<in> set (returning P f rows)" by (rule first_row_Some)
  then show ?thesis by (auto simp: returning_def)
qed

lemma first_row_returning_None:
  "first_row (returning P f rows) = None \<longleftrightarrow> (\<forall>r \<in> set rows. \<not> P r)"
  using first_row_returning [of P f rows] by blast

lemma apply_bill_patch_fields:
  "b_id (apply_bill_patch d t now b) = b_id b"
  "b_total (apply_bill_patch d t now b) = t"
  "b_subtotal (apply_bill_patch d t now b)
     = (case bp_subtotal d of None \<Rightarrow> b_subtotal b | Some v \<Rightarrow> round_cents v)"
  "b_makingCharges (apply_bill_patch d t now b)
     = (case bp_makingCharges d of None \<Rightarrow> b_makingCharges b | Some v \<Rightarrow> round_cents v)"
  "b_gst (apply_bill_patch d t now b)
     = (case bp_gst d of None \<Rightarrow> b_gst b | Some v \<Rightarrow> round_cents v)"
  "b_discount (apply_bill_patch d t now b)
     = (case bp_discount d of None \<Rightarrow> b_discount b | Some v \<Rightarrow> round_cents v)"
  by (simp_all add: apply_bill_patch_def set_col_def split: option.split)

lemma updateBill_accepted:
  assumes "uuid_in i = Some u"
    and "fits_opt 12 (bp_subtotal d)" and "fits_opt 12 (bp_makingCharges d)"
    and "fits_opt 12 (bp_gst d)" and "fits_opt 12 (bp_vat d)"
    and "fits_opt 12 (bp_discount d)" and "fits_opt 12 (bp_paidAmount d)"
    and "fits_numeric 12 (txt (js_minus fl (js_plus fl (js_plus fl (Number_or_0 fl (bp_subtotal d))
           (Number_or_0 fl (bp_makingCharges d))) (Number_or_0 fl (bp_gst d)))
           (Number_or_0 fl (bp_discount d))))"
  shows "updateBill fl txt uuid_in now s i d
           = (Returned (first_row (returning (\<lambda>b. b_id b = u)
                (apply_bill_patch d (round_cents (txt (js_minus fl (js_plus fl (js_plus fl
                   (Number_or_0 fl (bp_subtotal d)) (Number_or_0 fl (bp_makingCharges d)))
                   (Number_or_0 fl (bp_gst d))) (Number_or_0 fl (bp_discount d))))) now)
                (bills s))),
              s\<lparr>bills := update_where (\<lambda>b. b_id b = u)
                (apply_bill_patch d (round_cents (txt (js_minus fl (js_plus fl (js_plus fl
                   (Number_or_0 fl (bp_subtotal d)) (Number_or_0 fl (bp_makingCharges d)))
                   (Number_or_0 fl (bp_gst d))) (Number_or_0 fl (bp_discount d))))) now)
                (bills s)\<rparr>)"
  using assms by (simp add: updateBill_def Let_def)

lemma updateBill_rejected:
  assumes "uuid_in i = None
    \<or> \<not> (fits_opt 12 (bp_subtotal d) \<and> fits_opt 12 (bp_makingCharges d)
         \<and> fits_opt 12 (bp_gst d) \<and> fits_opt 12 (bp_vat d)
         \<and> fits_opt 12 (bp_discount d) \<and> fits_opt 12 (bp_paidAmount d)
         \<and> fits_numeric 12 (txt (js_minus fl (js_plus fl (js_plus fl (Number_or_0 fl (bp_subtotal d))
           (Number_or_0 fl (bp_makingCharges d))) (Number_or_0 fl (bp_gst d)))
           (Number_or_0 fl (bp_discount d)))))"
  shows "\<exists>e. updateBill fl txt uuid_in now s i d = (Raised e, s)"
  using assms by (cases "uuid_in i") (auto simp: updateBill_def Let_def)

text \<open>
  Claim C10. \<open>updateBill\<close> either raises and leaves the store as it was, or rewrites
  every bill with the given key and no other row. It raises when the id is no
  \<open>uuid\<close> and when an amount of the update, or the sum \<open>S\<close> below, is out of the range
  of its column. Otherwise the total of the rewritten bill is
  subtotal + makingCharges + gst - discount taken from the partial update alone, an
  absent component counting as 0: it is within half a hundredth and the error of the
  double arithmetic of that sum \<open>S\<close>, and it is \<open>S\<close> when \<open>S\<close> is a whole number of
  hundredths, whatever the stored total and the stored components were and whatever
  total the update carried. A stored subtotal, makingCharges or gst that the update
  does not mention stays as it was, and does not enter the total. The returned bill
  carries the same total.
\<close>

theorem updateBill_total_from_partial:
  assumes "double_rounding fl" and "double_rounding txt"
    and "S = or_0 (bp_subtotal billData) + or_0 (bp_makingCharges billData)
               + or_0 (bp_gst billData) - or_0 (bp_discount billData)"
  shows
    "(uuid_in i = Some u \<and> fst (updateBill fl txt uuid_in now s i billData) = Returned r
      \<longrightarrow> snd (updateBill fl txt uuid_in now s i billData)
             = s\<lparr>bills := bills (snd (updateBill fl txt uuid_in now s i billData))\<rparr>
          \<and> length (bills (snd (updateBill fl txt uuid_in now s i billData))) = length (bills s)
          \<and> (\<forall>k < length (bills s).
                (b_id (bills s ! k) = u
                  \<longrightarrow> b_id (bills (snd (updateBill fl txt uuid_in now s i billData)) ! k) = u
                    \<and> \<bar>of_int (b_total (bills (snd (updateBill fl txt uuid_in now s i billData)) ! k)) / 100 - S\<bar>
                        \<le> 1 / 200 + 1 / 1250
                    \<and> (\<forall>n. S * 100 = of_int n
                          \<longrightarrow> b_total (bills (snd (updateBill fl txt uuid_in now s i billData)) ! k) = n)
                    \<and> (bp_subtotal billData = None
                          \<longrightarrow> b_subtotal (bills (snd (updateBill fl txt uuid_in now s i billData)) ! k)
                                = b_subtotal (bills s ! k))
                    \<and> (bp_makingCharges billData = None
                          \<longrightarrow> b_makingCharges (bills (snd (updateBill fl txt uuid_in now s i billData)) ! k)
                                = b_makingCharges (bills s ! k))
                    \<and> (bp_gst billData = None
                          \<longrightarrow> b_gst (bills (snd (updateBill fl txt uuid_in now s i billData)) ! k)
                                = b_gst (bills s ! k)))
                \<and> (b_id (bills s ! k) \<noteq> u
                  \<longrightarrow> bills (snd (updateBill fl txt uuid_in now s i billData)) ! k = bills s ! k))
          \<and> (\<forall>b'. r = Some b'
                \<longrightarrow> b_id b' = u
                  \<and> \<bar>of_int (b_total b') / 100 - S\<bar> \<le> 1 / 200 + 1 / 1250
                  \<and> (\<forall>n. S * 100 = of_int n \<longrightarrow> b_total b' = n))
          \<and> (r = None \<longleftrightarrow> u \<notin> set (map b_id (bills s))))
     \<and> (uuid_in i \<noteq> None
        \<and> present_in_range_12_2 (bp_subtotal billData)
        \<and> present_in_range_12_2 (bp_makingCharges billData)
        \<and> present_in_range_12_2 (bp_gst billData)
        \<and> present_in_range_12_2 (bp_vat billData)
        \<and> present_in_range_12_2 (bp_discount billData)
        \<and> present_in_range_12_2 (bp_paidAmount billData)
        \<and> \<bar>S\<bar> \<le> 10 ^ 10 - 1 / 50
      \<longrightarrow> (\<exists>r. fst (updateBill fl txt uuid_in now s i billData) = Returned r))
     \<and> (uuid_in i = None
        \<or> \<not> present_in_range_12_2 (bp_subtotal billData)
        \<or> \<not> present_in_range_12_2 (bp_makingCharges billData)
        \<or> \<not> present_in_range_12_2 (bp_gst billData)
        \<or> \<not> present_in_range_12_2 (bp_vat billData)
        \<or> \<not> present_in_range_12_2 (bp_discount billData)
        \<or> \<not> present_in_range_12_2 (bp_paidAmount billData)
        \<or> 10 ^ 10 \<le> \<bar>S\<bar>
      \<longrightarrow> (\<exists>e. updateBill fl txt uuid_in now s i billData = (Raised e, s)))
     \<and> ((\<exists>e. updateBill fl txt uuid_in now s i billData = (Raised e, s))
        \<or> (\<exists>r. fst (updateBill fl txt uuid_in now s i billData) = Returned r))"
proof -
  define T where "T = txt (js_minus fl (js_plus fl (js_plus fl (Number_or_0 fl (bp_subtotal billData))
           (Number_or_0 fl (bp_makingCharges billData))) (Number_or_0 fl (bp_gst billData)))
           (Number_or_0 fl (bp_discount billData)))"
  define F where "F \<longleftrightarrow> present_in_range_12_2 (bp_subtotal billData)
        \<and> present_in_range_12_2 (bp_makingCharges billData)
        \<and> present_in_range_12_2 (bp_gst billData)
        \<and> present_in_range_12_2 (bp_vat billData)
        \<and> present_in_range_12_2 (bp_discount billData)
        \<and> present_in_range_12_2 (bp_paidAmount billData)"
  define U where "U = updateBill fl txt uuid_in now s i billData"
  have F_model: "F \<longleftrightarrow> fits_opt 12 (bp_subtotal billData) \<and> fits_opt 12 (bp_makingCharges billData)
         \<and> fits_opt 12 (bp_gst billData) \<and> fits_opt 12 (bp_vat billData)
         \<and> fits_opt 12 (bp_discount billData) \<and> fits_opt 12 (bp_paidAmount billData)"
    unfolding fits_opt_12 F_def by (rule refl)
  have err: "\<bar>T - S\<bar> \<le> 1 / 1250" if F
  proof -
    from that have "present_in_range_12_2 (bp_subtotal billData)"
      "present_in_range_12_2 (bp_makingCharges billData)"
      "present_in_range_12_2 (bp_gst billData)" "present_in_range_12_2 (bp_discount billData)"
      unfolding F_def by blast+
    thus ?thesis unfolding T_def assms(3) by (intro updateBill_total_error assms(1,2))
  qed
  have rejected: "\<exists>e. U = (Raised e, s)" if "uuid_in i = None \<or> \<not> F \<or> \<not> fits_numeric 12 T"
    using that unfolding U_def T_def F_model
    by (intro updateBill_rejected [of uuid_in i billData "txt" fl]) blast
  have accepted: "U = (Returned (first_row (returning (\<lambda>b. b_id b = v)
                        (apply_bill_patch billData (round_cents T) now) (bills s))),
                      s\<lparr>bills := update_where (\<lambda>b. b_id b = v)
                        (apply_bill_patch billData (round_cents T) now) (bills s)\<rparr>)"
    if "uuid_in i = Some v" and F and "fits_numeric 12 T" for v
  proof -
    from \<open>F\<close> have f: "fits_opt 12 (bp_subtotal billData)" "fits_opt 12 (bp_makingCharges billData)"
         "fits_opt 12 (bp_gst billData)" "fits_opt 12 (bp_vat billData)"
         "fits_opt 12 (bp_discount billData)" "fits_opt 12 (bp_paidAmount billData)"
      unfolding F_model by blast+
    show ?thesis unfolding U_def T_def
      by (rule updateBill_accepted [of uuid_in i v billData "txt" fl,
            OF that(1) f that(3) [unfolded T_def]])
  qed
  have part1: "snd U = s\<lparr>bills := bills (snd U)\<rparr>
          \<and> length (bills (snd U)) = length (bills s)
          \<and> (\<forall>k < length (bills s).
                (b_id (bills s ! k) = u
                  \<longrightarrow> b_id (bills (snd U) ! k) = u
                    \<and> \<bar>of_int (b_total (bills (snd U) ! k)) / 100 - S\<bar> \<le> 1 / 200 + 1 / 1250
                    \<and> (\<forall>n. S * 100 = of_int n \<longrightarrow> b_total (bills (snd U) ! k) = n)
                    \<and> (bp_subtotal billData = None
                          \<longrightarrow> b_subtotal (bills (snd U) ! k) = b_subtotal (bills s ! k))
                    \<and> (bp_makingCharges billData = None
                          \<longrightarrow> b_makingCharges (bills (snd U) ! k) = b_makingCharges (bills s ! k))
                    \<and> (bp_gst billData = None
                          \<longrightarrow> b_gst (bills (snd U) ! k) = b_gst (bills s ! k)))
                \<and> (b_id (bills s ! k) \<noteq> u \<longrightarrow> bills (snd U) ! k = bills s ! k))
          \<and> (\<forall>b'. r = Some b'
                \<longrightarrow> b_id b' = u
                  \<and> \<bar>of_int (b_total b') / 100 - S\<bar> \<le> 1 / 200 + 1 / 1250
                  \<and> (\<forall>n. S * 100 = of_int n \<longrightarrow> b_total b' = n))
          \<and> (r = None \<longleftrightarrow> u \<notin> set (map b_id (bills s)))"
    if u: "uuid_in i = Some u" and r: "fst U = Returned r"
  proof -
    have ok: "F \<and> fits_numeric 12 T"
    proof (rule ccontr)
      assume "\<not> (F \<and> fits_numeric 12 T)"
      hence "uuid_in i = None \<or> \<not> F \<or> \<not> fits_numeric 12 T" by blast
      from rejected [OF this] r show False by auto
    qed
    hence F and "fits_numeric 12 T" by blast+
    define f where "f = apply_bill_patch billData (round_cents T) now"
    note U = accepted [OF u \<open>F\<close> \<open>fits_numeric 12 T\<close>, folded f_def]
    have rows: "bills (snd U) = update_where (\<lambda>b. b_id b = u) f (bills s)"
      unfolding U by simp
    have ret: "r = first_row (returning (\<lambda>b. b_id b = u) f (bills s))"
      using r unfolding U by simp
    note t = stored_total [OF err [OF \<open>F\<close>]]
    have f_id: "b_id (f b) = b_id b" for b unfolding f_def by (rule apply_bill_patch_fields)
    have f_total: "\<bar>of_int (b_total (f b)) / 100 - S\<bar> \<le> 1 / 200 + 1 / 1250" for b
      unfolding f_def apply_bill_patch_fields by (rule t(1))
    have f_exact: "\<forall>n. S * 100 = of_int n \<longrightarrow> b_total (f b) = n" for b
      unfolding f_def apply_bill_patch_fields using t(2) by blast
    have f_keep: "bp_subtotal billData = None \<longrightarrow> b_subtotal (f b) = b_subtotal b"
      "bp_makingCharges billData = None \<longrightarrow> b_makingCharges (f b) = b_makingCharges b"
      "bp_gst billData = None \<longrightarrow> b_gst (f b) = b_gst b" for b
      unfolding f_def apply_bill_patch_fields by simp_all
    have c1: "snd U = s\<lparr>bills := bills (snd U)\<rparr>" unfolding U by simp
    have c2: "length (bills (snd U)) = length (bills s)"
      unfolding rows by (rule length_update_where)
    have c3: "\<forall>k < length (bills s).
                (b_id (bills s ! k) = u
                  \<longrightarrow> b_id (bills (snd U) ! k) = u
                    \<and> \<bar>of_int (b_total (bills (snd U) ! k)) / 100 - S\<bar> \<le> 1 / 200 + 1 / 1250
                    \<and> (\<forall>n. S * 100 = of_int n \<longrightarrow> b_total (bills (snd U) ! k) = n)
                    \<and> (bp_subtotal billData = None
                          \<longrightarrow> b_subtotal (bills (snd U) ! k) = b_subtotal (bills s ! k))
                    \<and> (bp_makingCharges billData = None
                          \<longrightarrow> b_makingCharges (bills (snd U) ! k) = b_makingCharges (bills s ! k))
                    \<and> (bp_gst billData = None
                          \<longrightarrow> b_gst (bills (snd U) ! k) = b_gst (bills s ! k)))
                \<and> (b_id (bills s ! k) \<noteq> u \<longrightarrow> bills (snd U) ! k = bills s ! k)"
    proof (intro allI impI conjI)
      fix k assume k: "k < length (bills s)"
      { assume "b_id (bills s ! k) \<noteq> u"
        thus "bills (snd U) ! k = bills s ! k" unfolding rows nth_update_where [OF k] by simp }
      assume "b_id (bills s ! k) = u"
      hence row: "bills (snd U) ! k = f (bills s ! k)" unfolding rows nth_update_where [OF k] by simp
      show "b_id (bills (snd U) ! k) = u" unfolding row f_id by fact
      show "\<bar>of_int (b_total (bills (snd U) ! k)) / 100 - S\<bar> \<le> 1 / 200 + 1 / 1250"
        unfolding row by (rule f_total)
      { fix n assume "S * 100 = of_int n"
        thus "b_total (bills (snd U) ! k) = n" unfolding row using f_exact by blast }
      { assume "bp_subtotal billData = None"
        thus "b_subtotal (bills (snd U) ! k) = b_subtotal (bills s ! k)"
          unfolding row using f_keep(1) by blast }
      { assume "bp_makingCharges billData = None"
        thus "b_makingCharges (bills (snd U) ! k) = b_makingCharges (bills s ! k)"
          unfolding row using f_keep(2) by blast }
      { assume "bp_gst billData = None"
        thus "b_gst (bills (snd U) ! k) = b_gst (bills s ! k)"
          unfolding row using f_keep(3) by blast }
    qed
    have c4: "\<forall>b'. r = Some b'
                \<longrightarrow> b_id b' = u
                  \<and> \<bar>of_int (b_total b') / 100 - S\<bar> \<le> 1 / 200 + 1 / 1250
                  \<and> (\<forall>n. S * 100 = of_int n \<longrightarrow> b_total b' = n)"
    proof (intro allI impI)
      fix b' assume "r = Some b'"
      hence "first_row (returning (\<lambda>b. b_id b = u) f (bills s)) = Some b'" unfolding ret by simp
      from first_row_returning_Some [OF this]
      obtain b where b: "b_id b = u" "b' = f b" by blast
      show "b_id b' = u
                  \<and> \<bar>of_int (b_total b') / 100 - S\<bar> \<le> 1 / 200 + 1 / 1250
                  \<and> (\<forall>n. S * 100 = of_int n \<longrightarrow> b_total b' = n)"
        unfolding b(2) using f_id [of b] b(1) f_total [of b] f_exact [of b] by blast
    qed
    have c5: "r = None \<longleftrightarrow> u \<notin> set (map b_id (bills s))"
      unfolding ret first_row_returning_None by auto
    from c1 c2 c3 c4 c5 show ?thesis by blast
  qed
  have part2: "\<exists>r. fst U = Returned r"
    if "uuid_in i \<noteq> None" and F and "\<bar>S\<bar> \<le> 10 ^ 10 - 1 / 50"
  proof -
    from that(1) obtain v where v: "uuid_in i = Some v" by blast
    have "fits_numeric 12 T" using err [OF \<open>F\<close>] that(3) by (rule fits_total)
    from accepted [OF v \<open>F\<close> this] show ?thesis by simp
  qed
  have part3: "\<exists>e. U = (Raised e, s)" if "uuid_in i = None \<or> \<not> F \<or> 10 ^ 10 \<le> \<bar>S\<bar>"
  proof (cases "F \<and> 10 ^ 10 \<le> \<bar>S\<bar>")
    case True
    hence "\<not> fits_numeric 12 T" using err by (intro overflow_total) blast+
    thus ?thesis by (intro rejected) blast
  next
    case False
    with that show ?thesis by (intro rejected) blast
  qed
  have part4: "(\<exists>e. U = (Raised e, s)) \<or> (\<exists>r. fst U = Returned r)"
  proof (cases "uuid_in i = None \<or> \<not> F \<or> \<not> fits_numeric 12 T")
    case True
    from rejected [OF this] show ?thesis by blast
  next
    case False
    then obtain v where "uuid_in i = Some v" F "fits_numeric 12 T" by auto
    from accepted [OF this] show ?thesis by simp
  qed
  have g1: "uuid_in i = Some u \<and> fst U = Returned r \<longrightarrow> (snd U = s\<lparr>bills := bills (snd U)\<rparr>
          \<and> length (bills (snd U)) = length (bills s)
          \<and> (\<forall>k < length (bills s).
                (b_id (bills s ! k) = u
                  \<longrightarrow> b_id (bills (snd U) ! k) = u
                    \<and> \<bar>of_int (b_total (bills (snd U) ! k)) / 100 - S\<bar> \<le> 1 / 200 + 1 / 1250
                    \<and> (\<forall>n. S * 100 = of_int n \<longrightarrow> b_total (bills (snd U) ! k) = n)
                    \<and> (bp_subtotal billData = None
                          \<longrightarrow> b_subtotal (bills (snd U) ! k) = b_subtotal (bills s ! k))
                    \<and> (bp_makingCharges billData = None
                          \<longrightarrow> b_makingCharges (bills (snd U) ! k) = b_makingCharges (bills s ! k))
                    \<and> (bp_gst billData = None
                          \<longrightarrow> b_gst (bills (snd U) ! k) = b_gst (bills s ! k)))
                \<and> (b_id (bills s ! k) \<noteq> u \<longrightarrow> bills (snd U) ! k = bills s ! k))
          \<and> (\<forall>b'. r = Some b'
                \<longrightarrow> b_id b' = u
                  \<and> \<bar>of_int (b_total b') / 100 - S\<bar> \<le> 1 / 200 + 1 / 1250
                  \<and> (\<forall>n. S * 100 = of_int n \<longrightarrow> b_total b' = n))
          \<and> (r = None \<longleftrightarrow> u \<notin> set (map b_id (bills s))))"
    using part1 by blast
  have g2: "uuid_in i \<noteq> None
        \<and> present_in_range_12_2 (bp_subtotal billData)
        \<and> present_in_range_12_2 (bp_makingCharges billData)
        \<and> present_in_range_12_2 (bp_gst billData)
        \<and> present_in_range_12_2 (bp_vat billData)
        \<and> present_in_range_12_2 (bp_discount billData)
        \<and> present_in_range_12_2 (bp_paidAmount billData)
        \<and> \<bar>S\<bar> \<le> 10 ^ 10 - 1 / 50
      \<longrightarrow> (\<exists>r. fst U = Returned r)"
    using part2 unfolding F_def by blast
  have g3: "uuid_in i = None
        \<or> \<not> present_in_range_12_2 (bp_subtotal billData)
        \<or> \<not> present_in_range_12_2 (bp_makingCharges billData)
        \<or> \<not> present_in_range_12_2 (bp_gst billData)
        \<or> \<not> present_in_range_12_2 (bp_vat billData)
        \<or> \<not> present_in_range_12_2 (bp_discount billData)
        \<or> \<not> present_in_range_12_2 (bp_paidAmount billData)
        \<or> 10 ^ 10 \<le> \<bar>S\<bar>
      \<longrightarrow> (\<exists>e. U = (Raised e, s))"
    using part3 unfolding F_def by blast
  show ?thesis
    unfolding U_def [symmetric] by (rule conjI [OF g1 conjI [OF g2 conjI [OF g3 part4]]])
qed

theorem updateBill_total_from_partial_witness:
  "double_rounding exact
   \<and> b_total (bills shop ! 0) = 1179500
   \<and> b_makingCharges (bills shop ! 0) = 150000
   \<and> b_gst (bills shop ! 0) = 34500
   \<and> b_total (bills (snd (updateBill exact exact uuid_text (at_day 2025 5 1) shop
         ''3f2b8c1e-6a4d-4e0b-9c57-2d1a7e5b9f10'' repricing)) ! 0) = 240000
   \<and> b_makingCharges (bills (snd (updateBill exact exact uuid_text (at_day 2025 5 1) shop
         ''3f2b8c1e-6a4d-4e0b-9c57-2d1a7e5b9f10'' repricing)) ! 0) = 150000
   \<and> b_gst (bills (snd (updateBill exact exact uuid_text (at_day 2025 5 1) shop
         ''3f2b8c1e-6a4d-4e0b-9c57-2d1a7e5b9f10'' repricing)) ! 0) = 34500
   \<and> (\<exists>e. updateBill exact exact uuid_text (at_day 2025 5 1) shop ''b1'' repricing
            = (Raised e, shop))"
proof -
  note ex = double_rounding_exact
  define U where "U = updateBill exact exact uuid_text (at_day 2025 5 1) shop
         ''3f2b8c1e-6a4d-4e0b-9c57-2d1a7e5b9f10'' repricing"
  have S: "(2400 :: rat) = or_0 (bp_subtotal repricing) + or_0 (bp_makingCharges repricing)
               + or_0 (bp_gst repricing) - or_0 (bp_discount repricing)"
    by (simp add: repricing_def)
  note t = updateBill_total_from_partial [OF ex ex S, where uuid_in = uuid_text
      and i = "''3f2b8c1e-6a4d-4e0b-9c57-2d1a7e5b9f10''"
      and u = "''3f2b8c1e-6a4d-4e0b-9c57-2d1a7e5b9f10''"
      and now = "at_day 2025 5 1" and s = shop, folded U_def]
  have u: "uuid_text ''3f2b8c1e-6a4d-4e0b-9c57-2d1a7e5b9f10''
             = Some ''3f2b8c1e-6a4d-4e0b-9c57-2d1a7e5b9f10''"
    by (simp add: uuid_text_def)
  have accept: "uuid_text ''3f2b8c1e-6a4d-4e0b-9c57-2d1a7e5b9f10'' \<noteq> None
        \<and> present_in_range_12_2 (bp_subtotal repricing)
        \<and> present_in_range_12_2 (bp_makingCharges repricing)
        \<and> present_in_range_12_2 (bp_gst repricing)
        \<and> present_in_range_12_2 (bp_vat repricing)
        \<and> present_in_range_12_2 (bp_discount repricing)
        \<and> present_in_range_12_2 (bp_paidAmount repricing)
        \<and> \<bar>2400 :: rat\<bar> \<le> 10 ^ 10 - 1 / 50"
    by (simp add: uuid_text_def repricing_def)
  from t [THEN conjunct2, THEN conjunct1, THEN mp, OF accept]
  obtain r where r: "fst U = Returned r" by blast
  have k: "0 < length (bills shop)" by (simp add: shop_def)
  have old: "b_id (bills shop ! 0) = ''3f2b8c1e-6a4d-4e0b-9c57-2d1a7e5b9f10''"
    "b_total (bills shop ! 0) = 1179500" "b_makingCharges (bills shop ! 0) = 150000"
    "b_gst (bills shop ! 0) = 34500"
    by (simp_all add: shop_def bill1_def)
  have absent: "bp_makingCharges repricing = None" "bp_gst repricing = None"
    by (simp_all add: repricing_def)
  have hundredths: "(2400 :: rat) * 100 = of_int 240000" by simp
  from t [THEN conjunct1, THEN mp, OF conjI [OF u r]]
  have rows: "\<forall>k < length (bills shop).
                (b_id (bills shop ! k) = ''3f2b8c1e-6a4d-4e0b-9c57-2d1a7e5b9f10''
                  \<longrightarrow> (\<forall>n. (2400 :: rat) * 100 = of_int n \<longrightarrow> b_total (bills (snd U) ! k) = n)
                    \<and> (bp_makingCharges repricing = None
                          \<longrightarrow> b_makingCharges (bills (snd U) ! k) = b_makingCharges (bills shop ! k))
                    \<and> (bp_gst repricing = None
                          \<longrightarrow> b_gst (bills (snd U) ! k) = b_gst (bills shop ! k)))"
    by blast
  from rows k old(1) hundredths absent
  have new: "b_total (bills (snd U) ! 0) = 240000"
    "b_makingCharges (bills (snd U) ! 0) = b_makingCharges (bills shop ! 0)"
    "b_gst (bills (snd U) ! 0) = b_gst (bills shop ! 0)"
    by blast+
  have "uuid_text ''b1'' = None" by (simp add: uuid_text_def)
  with updateBill_total_from_partial [OF ex ex S, where uuid_in = uuid_text and i = "''b1''"
      and now = "at_day 2025 5 1" and s = shop, THEN conjunct2, THEN conjunct2, THEN conjunct1]
  have raised: "\<exists>e. updateBill exact exact uuid_text (at_day 2025 5 1) shop ''b1'' repricing
            = (Raised e, shop)"
    by blast
  show ?thesis
    unfolding U_def [symmetric]
    using ex old(2,3,4) new(1) new(2) [unfolded old(3)] new(3) [unfolded old(4)] raised
    by (intro conjI)
qed

section \<open>Updates of a missing row\<close>





















lemma updateEstimate_malformed:
  assumes "(\<forall>u. validUntil_column parseDate (ep_validUntil d) \<noteq> Returned u)
    \<or> (ep_customerName d = None \<and> ep_totalAmount d = None \<and> ep_validUntil d = None
           \<and> ep_status d = None)
    \<or> \<not> fits_opt 10 (ep_totalAmount d)"
  shows "\<exists>err. updateEstimate parseDate s i d = (Raised err, s)
            \<and> err \<noteq> Error ''Estimate not found''"
proof (cases "validUntil_column parseDate (ep_validUntil d)")
  case (Raised e)
  hence "e \<noteq> Error ''Estimate not found''"
    by (auto simp: validUntil_column_def toISOString_def
          split: option.splits date_input.splits js_date.splits if_splits)
  with Raised show ?thesis by (simp add: updateEstimate_def)
next
  case (Returned u)
  with assms show ?thesis by (auto simp: updateEstimate_def Let_def)
qed










end
